theory Spec2Isabelle
  imports Main "HOL-Library.AList" "HOL-Library.Multiset"
begin

section \<open>Yard and slot management: the engine of \<open>App.jsx\<close>\<close>

text \<open>
  The development embeds the state-changing functions of the component
  \<open>YardSlotWireframe\<close> (file \<open>yard-wireframe/src/App.jsx\<close>; the second copy of the
  file carries the same functions, with a richer \<open>makeContainer\<close>).  React state is
  passed explicitly: every handler reads the state of the render it was created in and
  returns the state after its \<open>setState\<close> calls.  A JavaScript object with string keys
  is an association list in insertion order (\<open>map_of\<close> reads a property,
  \<open>AList.update\<close> writes one and keeps the position of an existing key); a
  well-formed object has distinct keys.
\<close>

subsection \<open>Configuration and identifiers\<close>

record config =
  zones :: "string list"
  rowsPerZone :: nat
  colsPerZone :: nat
  stackLimit :: nat

definition DEFAULT_CONFIG :: config where
  "DEFAULT_CONFIG = \<lparr>zones = [''A'', ''B'', ''C''], rowsPerZone = 4, colsPerZone = 6, stackLimit = 2\<rparr>"

definition digitChar :: "nat \<Rightarrow> char" where
  "digitChar d = ''0123456789'' ! d"

text \<open>\<open>String(n)\<close> for a non-negative integer: its decimal digits.\<close>

function decimal :: "nat \<Rightarrow> string" where
  "decimal n = (if n < 10 then [digitChar n] else decimal (n div 10) @ [digitChar (n mod 10)])"
  by pat_completeness auto
termination
  by (relation "measure (\<lambda>n. n)") auto

declare decimal.simps [simp del]

definition padStart :: "nat \<Rightarrow> char \<Rightarrow> string \<Rightarrow> string" where
  "padStart w c s = replicate (w - length s) c @ s"

text \<open>
  \<open>randomId(prefix)\<close>: the argument \<open>r\<close> is the value of
  \<open>Math.floor(Math.random() * 900000)\<close>, a number below 900000.
\<close>

definition randomId :: "string \<Rightarrow> nat \<Rightarrow> string" where
  "randomId prefix r = prefix @ ''-'' @ decimal (r + 100000)"

text \<open>\<open>randomFrom(arr)\<close>, with the drawn index \<open>Math.floor(Math.random() * arr.length)\<close>
  as argument; an index out of range reads \<open>undefined\<close>.\<close>

definition randomFrom :: "'a list \<Rightarrow> nat \<Rightarrow> 'a option" where
  "randomFrom arr k = (if k < length arr then Some (arr ! k) else None)"

definition buildSlotId :: "string \<Rightarrow> nat \<Rightarrow> nat \<Rightarrow> string" where
  "buildSlotId zone r c =
     zone @ ''-R'' @ padStart 2 CHR ''0'' (decimal r) @ ''-C'' @ padStart 2 CHR ''0'' (decimal c)"

text \<open>\<open>stack.join("|")\<close>.\<close>

fun join :: "string \<Rightarrow> string list \<Rightarrow> string" where
  "join sep [] = []"
| "join sep [x] = x"
| "join sep (x # y # ys) = x @ sep @ join sep (y # ys)"

definition slotSignature :: "string list \<Rightarrow> string" where
  "slotSignature stack = join ''|'' stack"

text \<open>The slots of the grid: zones outermost, then rows, then columns, from 1.\<close>

definition allSlots :: "config \<Rightarrow> string list" where
  "allSlots cfg =
     concat (map (\<lambda>z. concat (map (\<lambda>r. map (\<lambda>c. buildSlotId z r c) [1 ..< Suc (colsPerZone cfg)])
                                   [1 ..< Suc (rowsPerZone cfg)]))
                 (zones cfg))"

subsection \<open>Containers and the state of the component\<close>

datatype status = INBOUND | IN_YARD

text \<open>
  A container object.  Every field is optional: \<open>moveSelectedToSlot\<close> starts from
  \<open>{ id: cid }\<close> for an unknown identifier, and a spread of \<open>undefined\<close> has no
  field at all.  \<open>slotId = None\<close> stands for both an absent and a \<open>null\<close> slot.
\<close>

record container =
  id_c :: "string option"
  size_c :: "string option"
  type_c :: "string option"
  priority :: "string option"
  status :: "status option"
  createdAt :: "string option"
  placedAt :: "string option"
  movedAt :: "string option"
  updatedAt :: "string option"
  slotId :: "string option"

definition noFields :: container where
  "noFields = \<lparr>id_c = None, size_c = None, type_c = None, priority = None, status = None,
     createdAt = None, placedAt = None, movedAt = None, updatedAt = None, slotId = None\<rparr>"

text \<open>The random choices of one \<open>makeContainer\<close> call.\<close>

record attrDraw =
  sizeDraw :: nat
  typeDraw :: nat
  highDraw :: bool
  prioDraw :: nat

definition makeContainer :: "string \<Rightarrow> attrDraw \<Rightarrow> string \<Rightarrow> container" where
  "makeContainer cid d now = noFields
     \<lparr>id_c := Some cid,
      size_c := randomFrom [''20FT'', ''40FT''] (sizeDraw d),
      type_c := randomFrom [''DRY'', ''REEFER'', ''OPEN''] (typeDraw d),
      priority := (if highDraw d then Some ''HIGH'' else randomFrom [''NORMAL'', ''HIGH''] (prioDraw d)),
      status := Some INBOUND,
      createdAt := Some now\<rparr>"

type_synonym layout_t = "(string \<times> string list) list"
type_synonym store_t = "string \<rightharpoonup> container"
type_synonym sig_t = "(string \<times> string) list"

record state =
  containers :: store_t
  inboundIds :: "string list"
  layout :: layout_t
  prevSig :: sig_t
  selectedContainerId :: "string option"

text \<open>\<open>layout[s] || []\<close>.\<close>

definition stackOf :: "layout_t \<Rightarrow> string \<Rightarrow> string list" where
  "stackOf l s = (case map_of l s of None \<Rightarrow> [] | Some st \<Rightarrow> st)"

text \<open>\<open>prevSigMap?.[slotId] ?? ""\<close>.\<close>

definition prevOf :: "sig_t \<Rightarrow> string \<Rightarrow> string" where
  "prevOf p s = (case map_of p s of None \<Rightarrow> [] | Some g \<Rightarrow> g)"

text \<open>An object built by assigning \<open>obj[k] = f k\<close> for each \<open>k\<close> of a list, in order.\<close>

definition objectOf :: "(string \<Rightarrow> 'v) \<Rightarrow> string list \<Rightarrow> (string \<times> 'v) list" where
  "objectOf f ks = foldl (\<lambda>obj k. AList.update k (f k) obj) [] ks"

text \<open>The initial layout: every slot of the grid, with the stored stack or the empty one.\<close>

definition normalized :: "config \<Rightarrow> layout_t \<Rightarrow> layout_t" where
  "normalized cfg l = objectOf (stackOf l) (allSlots cfg)"

subsection \<open>Change detection\<close>

text \<open>
  \<open>computeChangedSlots\<close> returns a \<open>Set\<close>: the slots of the layout whose signature
  differs from the previous one, and the slots of the previous map missing in the layout.
\<close>

definition computeChangedSlots :: "layout_t \<Rightarrow> sig_t \<Rightarrow> string set" where
  "computeChangedSlots l p =
     set (map fst (filter (\<lambda>(slot, stack). slotSignature stack \<noteq> prevOf p slot) l))
     \<union> set (filter (\<lambda>slot. slot \<notin> set (map fst l)) (map fst p))"

definition changedSlots :: "state \<Rightarrow> string set" where
  "changedSlots s = computeChangedSlots (layout s) (prevSig s)"

definition snapshotSignatures :: "config \<Rightarrow> state \<Rightarrow> state" where
  "snapshotSignatures cfg s =
     s\<lparr>prevSig := objectOf (\<lambda>k. slotSignature (stackOf (layout s) k)) (allSlots cfg)\<rparr>"

subsection \<open>Intake\<close>

text \<open>
  \<open>let id = randomId("CONT"); while (newContainers[id]) id = randomId("CONT")\<close>: the
  draws of \<open>randomId\<close> are read from a list; the loop has no result when every draw of
  the list is taken already.
\<close>

fun freshId :: "store_t \<Rightarrow> nat list \<Rightarrow> (string \<times> nat list) option" where
  "freshId st [] = None"
| "freshId st (r # rs) =
     (if st (randomId ''CONT'' r) \<noteq> None then freshId st rs else Some (randomId ''CONT'' r, rs))"

fun pollLoop :: "nat \<Rightarrow> nat \<Rightarrow> nat list \<Rightarrow> (nat \<Rightarrow> attrDraw) \<Rightarrow> (nat \<Rightarrow> string)
    \<Rightarrow> store_t \<times> string list \<Rightarrow> (store_t \<times> string list) option" where
  "pollLoop 0 i rs attrs clock acc = Some acc"
| "pollLoop (Suc k) i rs attrs clock (newContainers, newInbound) =
     (case freshId newContainers rs of
        None \<Rightarrow> None
      | Some (cid, rs') \<Rightarrow>
          pollLoop k (Suc i) rs' attrs clock
            (newContainers(cid \<mapsto> makeContainer cid (attrs i) (clock i)), cid # newInbound))"

definition pollInbound :: "nat \<Rightarrow> nat list \<Rightarrow> (nat \<Rightarrow> attrDraw) \<Rightarrow> (nat \<Rightarrow> string) \<Rightarrow> state \<Rightarrow> state option" where
  "pollInbound cnt rs attrs clock s =
     (case pollLoop cnt 0 rs attrs clock (containers s, inboundIds s) of
        None \<Rightarrow> None
      | Some (newContainers, newInbound) \<Rightarrow>
          Some (s\<lparr>containers := newContainers, inboundIds := newInbound\<rparr>))"

subsection \<open>Placement\<close>

text \<open>\<open>firstAvailableSlot\<close> reads the layout of the current render.  Its result is
  \<open>null\<close> or a slot of the grid; a slot identifier is never the empty string, so the
  test \<open>!slot\<close> of the caller is the test for \<open>null\<close>.\<close>

definition firstAvailableSlot :: "config \<Rightarrow> layout_t \<Rightarrow> string option" where
  "firstAvailableSlot cfg l = find (\<lambda>s. length (stackOf l s) < stackLimit cfg) (allSlots cfg)"

definition baseOf :: "store_t \<Rightarrow> string \<Rightarrow> container" where
  "baseOf st cid = (case st cid of None \<Rightarrow> noFields | Some c \<Rightarrow> c)"

text \<open>
  The loop of \<open>autoPlace\<close>.  \<open>lay\<close> is the layout of the render, which
  \<open>firstAvailableSlot\<close> reads in every iteration; the working copies are the triple.
  \<open>clock placed\<close> is the value of \<open>nowISO()\<close> in the iteration.
\<close>

function autoPlaceLoop :: "config \<Rightarrow> layout_t \<Rightarrow> (nat \<Rightarrow> string) \<Rightarrow> nat \<Rightarrow> nat
    \<Rightarrow> layout_t \<times> store_t \<times> string list \<Rightarrow> nat \<times> layout_t \<times> store_t \<times> string list" where
  "autoPlaceLoop cfg lay clock n placed (newLayout, newContainers, newInbound) =
     (if newInbound \<noteq> [] \<and> placed < n then
        (case firstAvailableSlot cfg lay of
           None \<Rightarrow> (placed, newLayout, newContainers, newInbound)
         | Some slot \<Rightarrow>
             autoPlaceLoop cfg lay clock n (Suc placed)
               (AList.update slot (stackOf newLayout slot @ [last newInbound]) newLayout,
                newContainers(last newInbound \<mapsto>
                  (baseOf newContainers (last newInbound))
                    \<lparr>status := Some IN_YARD, placedAt := Some (clock placed), slotId := Some slot\<rparr>),
                butlast newInbound))
      else (placed, newLayout, newContainers, newInbound))"
  by pat_completeness auto
termination
  by (relation "measure (\<lambda>(cfg, lay, clock, n, placed, acc). n - placed)") auto

declare autoPlaceLoop.simps [simp del]

definition autoPlace :: "config \<Rightarrow> (nat \<Rightarrow> string) \<Rightarrow> nat \<Rightarrow> state \<Rightarrow> state" where
  "autoPlace cfg clock n s =
     (case autoPlaceLoop cfg (layout s) clock n 0 (layout s, containers s, inboundIds s) of
        (placed, newLayout, newContainers, newInbound) \<Rightarrow>
          s\<lparr>layout := newLayout, containers := newContainers, inboundIds := newInbound\<rparr>)"

text \<open>The number of containers a call of \<open>autoPlace\<close> places (its local \<open>placed\<close>).\<close>

definition autoPlaced :: "config \<Rightarrow> (nat \<Rightarrow> string) \<Rightarrow> nat \<Rightarrow> state \<Rightarrow> nat" where
  "autoPlaced cfg clock n s =
     fst (autoPlaceLoop cfg (layout s) clock n 0 (layout s, containers s, inboundIds s))"

subsection \<open>Manual move, reordering, eviction\<close>

datatype alert = SlotFull string nat

text \<open>
  \<open>moveSelectedToSlot\<close>: the result is the alert shown, if any, and the state.  The
  function returns before any \<open>setState\<close> call when nothing is selected (\<open>null\<close> or
  the empty string) and when the target is full in the working copy.
\<close>

definition moveSelectedToSlot :: "config \<Rightarrow> string \<Rightarrow> string \<Rightarrow> state \<Rightarrow> alert option \<times> state" where
  "moveSelectedToSlot cfg now targetSlotId s =
     (case selectedContainerId s of
        None \<Rightarrow> (None, s)
      | Some cid \<Rightarrow>
          if cid = [] then (None, s)
          else
            let newLayout = map (\<lambda>(k, st). (k, if cid \<in> set st then filter (\<lambda>x. x \<noteq> cid) st else st)) (layout s);
                newInbound = filter (\<lambda>x. x \<noteq> cid) (inboundIds s);
                stack = stackOf newLayout targetSlotId
            in if length stack \<ge> stackLimit cfg then (Some (SlotFull targetSlotId (stackLimit cfg)), s)
               else (None,
                 s\<lparr>layout := AList.update targetSlotId (stack @ [cid]) newLayout,
                   inboundIds := newInbound,
                   containers := (containers s)(cid \<mapsto>
                     (case containers s cid of None \<Rightarrow> noFields\<lparr>id_c := Some cid\<rparr> | Some c \<Rightarrow> c)
                       \<lparr>status := Some IN_YARD, movedAt := Some now, slotId := Some targetSlotId\<rparr>)\<rparr>))"

text \<open>The operation \<open>move(id, slot)\<close>: select the container, then click the slot.\<close>

definition move :: "config \<Rightarrow> string \<Rightarrow> string \<Rightarrow> string \<Rightarrow> state \<Rightarrow> alert option \<times> state" where
  "move cfg now cid targetSlotId s = moveSelectedToSlot cfg now targetSlotId (s\<lparr>selectedContainerId := Some cid\<rparr>)"

text \<open>
  \<open>stack.splice(fromIndex, 1)\<close> followed by \<open>stack.splice(toIndex, 0, item)\<close>, for
  indices in range.
\<close>

definition spliceMove :: "nat \<Rightarrow> nat \<Rightarrow> 'a list \<Rightarrow> 'a list" where
  "spliceMove i j stack =
     (let rest = take i stack @ drop (Suc i) stack
      in take j rest @ [stack ! i] @ drop j rest)"

definition reorderWithinSlot :: "string \<Rightarrow> int \<Rightarrow> int \<Rightarrow> state \<Rightarrow> state" where
  "reorderWithinSlot slot fromIndex toIndex s =
     (let stack = stackOf (layout s) slot in
      if fromIndex < 0 \<or> fromIndex \<ge> int (length stack) then s
      else if toIndex < 0 \<or> toIndex \<ge> int (length stack) then s
      else s\<lparr>layout := AList.update slot (spliceMove (nat fromIndex) (nat toIndex) stack) (layout s)\<rparr>)"

definition removeFromSlot :: "string \<Rightarrow> string \<Rightarrow> string \<Rightarrow> state \<Rightarrow> state" where
  "removeFromSlot now slot cid s =
     s\<lparr>layout := AList.update slot (filter (\<lambda>x. x \<noteq> cid) (stackOf (layout s) slot)) (layout s),
       inboundIds := cid # filter (\<lambda>x. x \<noteq> cid) (inboundIds s),
       containers := (containers s)(cid \<mapsto>
          (baseOf (containers s) cid)\<lparr>status := Some INBOUND, slotId := None, updatedAt := Some now\<rparr>)\<rparr>"

text \<open>\<open>resetAll\<close>: the state of an empty yard (the removal of the stored copies is not
  part of the state).\<close>

definition initial :: "config \<Rightarrow> state" where
  "initial cfg = \<lparr>containers = Map.empty, inboundIds = [],
     layout = objectOf (\<lambda>s. []) (allSlots cfg), prevSig = [], selectedContainerId = None\<rparr>"

definition resetAll :: "config \<Rightarrow> state \<Rightarrow> state" where
  "resetAll cfg s = initial cfg"

subsection \<open>Sequences of operations\<close>

text \<open>
  The operations of the engine with their arguments; the random draws and the clock
  readings of a call are arguments as well.  \<open>Move\<close> is a selection followed by a
  click on the target slot.
\<close>

datatype op =
  Poll nat "nat list" "nat \<Rightarrow> attrDraw" "nat \<Rightarrow> string"
| AutoPlace nat "nat \<Rightarrow> string"
| Move string string string
| Reorder string int int
| Evict string string string
| Acknowledge

fun step :: "config \<Rightarrow> op \<Rightarrow> state \<Rightarrow> state option" where
  "step cfg (Poll cnt rs attrs clock) s = pollInbound cnt rs attrs clock s"
| "step cfg (AutoPlace n clock) s = Some (autoPlace cfg clock n s)"
| "step cfg (Move now cid target) s = Some (snd (move cfg now cid target s))"
| "step cfg (Reorder slot i j) s = Some (reorderWithinSlot slot i j s)"
| "step cfg (Evict now slot cid) s = Some (removeFromSlot now slot cid s)"
| "step cfg Acknowledge s = Some (snapshotSignatures cfg s)"

fun run :: "config \<Rightarrow> op list \<Rightarrow> state \<Rightarrow> state option" where
  "run cfg [] s = Some s"
| "run cfg (x # xs) s = (case step cfg x s of None \<Rightarrow> None | Some s' \<Rightarrow> run cfg xs s')"



text \<open>The slot an operation names, if it names one.\<close>

fun namedSlot :: "op \<Rightarrow> string option" where
  "namedSlot (Move now cid target) = Some target"
| "namedSlot (Reorder slot i j) = Some slot"
| "namedSlot (Evict now slot cid) = Some slot"
| "namedSlot x = None"

subsection \<open>Properties of states\<close>

definition stackedIds :: "state \<Rightarrow> string list" where
  "stackedIds s = concat (map snd (layout s))"

definition capacityOk :: "config \<Rightarrow> state \<Rightarrow> bool" where
  "capacityOk cfg s = list_all (\<lambda>(slot, stack). length stack \<le> stackLimit cfg) (layout s)"

definition noDuplicateIds :: "state \<Rightarrow> bool" where
  "noDuplicateIds s = distinct (stackedIds s)"

text \<open>The layout is an object over exactly the slots of the grid.\<close>

definition gridLayout :: "config \<Rightarrow> state \<Rightarrow> bool" where
  "gridLayout cfg s = (distinct (map fst (layout s)) \<and> set (map fst (layout s)) = set (allSlots cfg))"

text \<open>Every created container is listed once, in the inbound queue or in one stack, and
  nothing else is listed.\<close>

definition placement :: "state \<Rightarrow> bool" where
  "placement s = (distinct (map fst (layout s)) \<and> distinct (inboundIds s @ stackedIds s)
     \<and> set (inboundIds s @ stackedIds s) = dom (containers s))"

definition exactlyOnePlace :: "state \<Rightarrow> bool" where
  "exactlyOnePlace s =
     (\<forall>cid \<in> dom (containers s). (cid \<in> set (inboundIds s)) \<noteq> (cid \<in> set (stackedIds s)))"

text \<open>The identifiers that \<open>pollInbound\<close> creates.\<close>

definition isContainerId :: "string \<Rightarrow> bool" where
  "isContainerId x = (\<exists>r \<in> {0 ..< 900000}. x = randomId ''CONT'' r)"

subsection \<open>Example states\<close>

definition draw0 :: attrDraw where
  "draw0 = \<lparr>sizeDraw = 0, typeDraw = 0, highDraw = False, prioDraw = 0\<rparr>"

text \<open>An empty yard of the default grid after a poll of three containers.\<close>

definition yardPolled :: state where
  "yardPolled = (initial DEFAULT_CONFIG)
     \<lparr>containers := [''CONT-100001'' \<mapsto> makeContainer ''CONT-100001'' draw0 ''t0'',
                      ''CONT-100002'' \<mapsto> makeContainer ''CONT-100002'' draw0 ''t0'',
                      ''CONT-100003'' \<mapsto> makeContainer ''CONT-100003'' draw0 ''t0''],
      inboundIds := [''CONT-100003'', ''CONT-100002'', ''CONT-100001'']\<rparr>"

text \<open>The same yard with the two oldest containers stacked in the first slot.\<close>

definition yardStacked :: state where
  "yardStacked = (initial DEFAULT_CONFIG)
     \<lparr>containers := [''CONT-100001'' \<mapsto> (makeContainer ''CONT-100001'' draw0 ''t0'')
                         \<lparr>status := Some IN_YARD, placedAt := Some ''t1'', slotId := Some ''A-R01-C01''\<rparr>,
                      ''CONT-100002'' \<mapsto> (makeContainer ''CONT-100002'' draw0 ''t0'')
                         \<lparr>status := Some IN_YARD, placedAt := Some ''t1'', slotId := Some ''A-R01-C01''\<rparr>,
                      ''CONT-100003'' \<mapsto> makeContainer ''CONT-100003'' draw0 ''t0''],
      inboundIds := [''CONT-100003''],
      layout := AList.update ''A-R01-C01'' [''CONT-100001'', ''CONT-100002'']
                  (objectOf (\<lambda>s. []) (allSlots DEFAULT_CONFIG))\<rparr>"

text \<open>The same yard after a click on a container.\<close>

definition yardSelected :: "string \<Rightarrow> state" where
  "yardSelected cid = yardStacked\<lparr>selectedContainerId := Some cid\<rparr>"

text \<open>A poll on that yard whose first draw collides with a stored identifier.\<close>

definition yardRepolled :: state where
  "yardRepolled = yardStacked
     \<lparr>containers := (containers yardStacked)(''CONT-100007'' \<mapsto> makeContainer ''CONT-100007'' draw0 ''t4''),
      inboundIds := ''CONT-100007'' # inboundIds yardStacked\<rparr>"



text \<open>A state that lists one container in two stacks.\<close>

definition yardDoubled :: state where
  "yardDoubled = yardStacked\<lparr>layout := AList.update ''A-R01-C02'' [''CONT-100001''] (layout yardStacked)\<rparr>"

text \<open>The yard after a poll of three containers and \<open>autoPlace(10)\<close>.\<close>

definition yardOverfull :: state where
  "yardOverfull = autoPlace DEFAULT_CONFIG (\<lambda>i. ''t1'') 10 yardPolled"

section \<open>Identifiers and signatures\<close>

lemma digitChar_not_bar: "d < 10 \<Longrightarrow> digitChar d \<noteq> CHR ''|''"
proof -
  assume "d < 10"
  then have "d \<in> set [0 ..< 10]" by simp
  moreover have "\<forall>k \<in> set [0 ..< 10]. digitChar k \<noteq> CHR ''|''" by code_simp
  ultimately show ?thesis by blast
qed

lemma decimal_nonempty: "decimal n \<noteq> []"
  by (subst decimal.simps) simp

lemma decimal_no_bar: "CHR ''|'' \<notin> set (decimal n)"
proof (induction n rule: decimal.induct)
  case (1 n)
  show ?case
  proof (cases "n < 10")
    case True
    then show ?thesis using digitChar_not_bar [of n] by (subst decimal.simps) auto
  next
    case False
    have "n mod 10 < 10" by simp
    then have "digitChar (n mod 10) \<noteq> CHR ''|''" by (rule digitChar_not_bar)
    with False 1 show ?thesis by (subst decimal.simps) auto
  qed
qed

lemma randomId_nonempty: "randomId prefix r \<noteq> []"
  by (simp add: randomId_def)

lemma randomId_no_bar: "CHR ''|'' \<notin> set prefix \<Longrightarrow> CHR ''|'' \<notin> set (randomId prefix r)"
  by (simp add: randomId_def decimal_no_bar)

lemma join_Cons: "join sep (x # xs) = (if xs = [] then x else x @ sep @ join sep xs)"
  by (cases xs) simp_all

lemma join_head:
  assumes "CHR ''|'' \<notin> set x"
  shows "takeWhile (\<lambda>c. c \<noteq> CHR ''|'') (join ''|'' (x # xs)) = x"
proof (cases xs)
  case Nil
  with assms show ?thesis by (auto simp: takeWhile_eq_all_conv)
next
  case (Cons y ys)
  with assms show ?thesis by (auto simp: takeWhile_tail takeWhile_eq_all_conv)
qed

lemma join_tail:
  assumes "CHR ''|'' \<notin> set x"
  shows "dropWhile (\<lambda>c. c \<noteq> CHR ''|'') (join ''|'' (x # xs)) = (if xs = [] then [] else ''|'' @ join ''|'' xs)"
proof (cases xs)
  case Nil
  with assms show ?thesis by (auto simp: dropWhile_eq_Nil_conv)
next
  case (Cons y ys)
  with assms show ?thesis by (auto simp: dropWhile_append3 dropWhile_append)
qed

lemma join_nonempty: "x \<noteq> [] \<Longrightarrow> join sep (x # xs) \<noteq> []"
  by (simp add: join_Cons)

lemma join_inj:
  assumes "\<forall>x \<in> set xs \<union> set ys. x \<noteq> [] \<and> CHR ''|'' \<notin> set x"
    and "join ''|'' xs = join ''|'' ys"
  shows "xs = ys"
  using assms
proof (induction xs arbitrary: ys)
  case Nil
  then show ?case
  proof (cases ys)
    case (Cons y ys')
    with Nil have "y \<noteq> []" by simp
    then have "join ''|'' (y # ys') \<noteq> []" by (rule join_nonempty)
    with Nil Cons show ?thesis by simp
  qed simp
next
  case (Cons x xs)
  show ?case
  proof (cases ys)
    case Nil
    from Cons.prems have "x \<noteq> []" by simp
    then have "join ''|'' (x # xs) \<noteq> []" by (rule join_nonempty)
    with Cons.prems Nil show ?thesis by simp
  next
    case (Cons y ys')
    from Cons.prems Cons have nx: "CHR ''|'' \<notin> set x" and ny: "CHR ''|'' \<notin> set y" by auto
    from Cons.prems(2) Cons have e: "join ''|'' (x # xs) = join ''|'' (y # ys')" by simp
    have "x = y" using join_head [OF nx, of xs] join_head [OF ny, of ys'] e by simp
    have t: "(if xs = [] then [] else ''|'' @ join ''|'' xs) = (if ys' = [] then [] else ''|'' @ join ''|'' ys')"
      using join_tail [OF nx, of xs] join_tail [OF ny, of ys'] e by simp
    have "xs = ys'"
    proof (cases "xs = []")
      case True
      with t show ?thesis by (auto split: if_splits)
    next
      case False
      with t have "ys' \<noteq> []" and "join ''|'' xs = join ''|'' ys'" by (auto split: if_splits)
      moreover have "\<forall>x \<in> set xs \<union> set ys'. x \<noteq> [] \<and> CHR ''|'' \<notin> set x"
        using Cons.prems(1) Cons by auto
      ultimately show ?thesis using Cons.IH by blast
    qed
    with \<open>x = y\<close> Cons show ?thesis by simp
  qed
qed


lemma isContainerId_wellformed: "isContainerId x \<Longrightarrow> x \<noteq> [] \<and> CHR ''|'' \<notin> set x"
  by (auto simp: isContainerId_def randomId_nonempty randomId_no_bar)

lemma randomId_1: "randomId ''CONT'' 1 = ''CONT-100001''"
  by (simp add: randomId_def decimal.simps digitChar_def)

lemma randomId_2: "randomId ''CONT'' 2 = ''CONT-100002''"
  by (simp add: randomId_def decimal.simps digitChar_def)

lemma randomId_3: "randomId ''CONT'' 3 = ''CONT-100003''"
  by (simp add: randomId_def decimal.simps digitChar_def)

lemma isContainerId_1: "isContainerId ''CONT-100001''"
  unfolding isContainerId_def using randomId_1 by (intro bexI [of _ 1]) simp_all

lemma isContainerId_2: "isContainerId ''CONT-100002''"
  unfolding isContainerId_def using randomId_2 by (intro bexI [of _ 2]) simp_all

lemma isContainerId_3: "isContainerId ''CONT-100003''"
  unfolding isContainerId_def using randomId_3 by (intro bexI [of _ 3]) simp_all

text \<open>
  Claim C9.  Two stacks of container identifiers (identifiers as \<open>randomId\<close> creates
  them: the prefix \<open>CONT\<close>, a dash and six digits, so never empty and free of the
  separator) have the same signature exactly when they hold the same identifiers in the
  same order; the signature of the empty stack is the empty string.
\<close>

theorem signature_identifies_stack:
  assumes "\<forall>x \<in> set xs \<union> set ys. isContainerId x"
  shows "(slotSignature xs = slotSignature ys \<longleftrightarrow> xs = ys) \<and> slotSignature [] = []"
proof -
  from assms have "\<forall>x \<in> set xs \<union> set ys. x \<noteq> [] \<and> CHR ''|'' \<notin> set x"
    using isContainerId_wellformed by blast
  then have "slotSignature xs = slotSignature ys \<Longrightarrow> xs = ys"
    unfolding slotSignature_def by (rule join_inj)
  then show ?thesis by (auto simp: slotSignature_def)
qed

theorem signature_identifies_stack_witness:
  "isContainerId ''CONT-100001'' \<and> isContainerId ''CONT-100002''
   \<and> slotSignature [''CONT-100001'', ''CONT-100002''] \<noteq> slotSignature [''CONT-100002'', ''CONT-100001'']
   \<and> slotSignature [''CONT-100001'', ''CONT-100002''] = ''CONT-100001|CONT-100002''"
proof -
  have h: "\<forall>x \<in> set [''CONT-100001'', ''CONT-100002''] \<union> set [''CONT-100002'', ''CONT-100001'']. isContainerId x"
    using isContainerId_1 isContainerId_2 by simp
  from signature_identifies_stack [OF h] have
    "slotSignature [''CONT-100001'', ''CONT-100002''] \<noteq> slotSignature [''CONT-100002'', ''CONT-100001'']"
    by simp
  moreover have "slotSignature [''CONT-100001'', ''CONT-100002''] = ''CONT-100001|CONT-100002''"
    by (simp add: slotSignature_def)
  ultimately show ?thesis using isContainerId_1 isContainerId_2 by blast
qed

lemma stackOf_update: "stackOf (AList.update k v l) k' = (if k' = k then v else stackOf l k')"
  by (simp add: stackOf_def update_conv')

lemma objectOf_fold:
  "map_of (foldl (\<lambda>obj k. AList.update k (f k) obj) acc ks) k
     = (if k \<in> set ks then Some (f k) else map_of acc k)"
  by (induction ks arbitrary: acc) (auto simp: update_conv')

lemma map_of_objectOf: "map_of (objectOf f ks) k = (if k \<in> set ks then Some (f k) else None)"
  by (simp add: objectOf_def objectOf_fold)

lemma keys_fold:
  "fst ` set (foldl (\<lambda>obj k. AList.update k (f k) obj) acc ks) = set ks \<union> fst ` set acc"
  by (induction ks arbitrary: acc) (auto simp: dom_update)

lemma keys_objectOf: "fst ` set (objectOf f ks) = set ks"
  by (simp add: objectOf_def keys_fold)

lemma distinct_fold:
  "distinct (map fst acc) \<Longrightarrow> distinct (map fst (foldl (\<lambda>obj k. AList.update k (f k) obj) acc ks))"
  by (induction ks arbitrary: acc) (auto simp: distinct_update)

lemma distinct_objectOf: "distinct (map fst (objectOf f ks))"
  by (simp add: objectOf_def distinct_fold)

lemma stackOf_objectOf: "stackOf (objectOf f ks) k = (if k \<in> set ks then f k else [])"
  by (simp add: stackOf_def map_of_objectOf)

lemma prevOf_objectOf: "prevOf (objectOf f ks) k = (if k \<in> set ks then f k else [])"
  by (simp add: prevOf_def map_of_objectOf)

lemma stackOf_entry: "distinct (map fst l) \<Longrightarrow> (k, st) \<in> set l \<Longrightarrow> stackOf l k = st"
  by (simp add: stackOf_def)

lemma acknowledged_unchanged:
  assumes "distinct (map fst l)" and "set (map fst l) = set ks"
  shows "computeChangedSlots l (objectOf (\<lambda>k. slotSignature (stackOf l k)) ks) = {}"
proof -
  have "\<And>k st. (k, st) \<in> set l \<Longrightarrow>
      slotSignature st = prevOf (objectOf (\<lambda>k. slotSignature (stackOf l k)) ks) k"
  proof -
    fix k st assume e: "(k, st) \<in> set l"
    then have "k \<in> set ks" using assms(2) by force
    moreover have "stackOf l k = st" using assms(1) e by (rule stackOf_entry)
    ultimately show "slotSignature st = prevOf (objectOf (\<lambda>k. slotSignature (stackOf l k)) ks) k"
      by (simp add: prevOf_objectOf)
  qed
  then have "filter (\<lambda>(slot, stack). slotSignature stack \<noteq>
      prevOf (objectOf (\<lambda>k. slotSignature (stackOf l k)) ks) slot) l = []"
    by (auto simp: filter_empty_conv)
  moreover have "filter (\<lambda>slot. slot \<notin> set (map fst l))
      (map fst (objectOf (\<lambda>k. slotSignature (stackOf l k)) ks)) = []"
    using assms(2) keys_objectOf [of "\<lambda>k. slotSignature (stackOf l k)" ks]
    by (auto simp: filter_empty_conv)
  ultimately show ?thesis by (simp add: computeChangedSlots_def)
qed

text \<open>
  Claim C5.  In a state whose layout is an object over exactly the slots of the grid,
  \<open>snapshotSignatures\<close> (acknowledge) keeps the layout, the container store, the inbound
  queue and the selection, and replaces the previous-signature map by an object over
  exactly the slots of the grid that holds the current signature of each of them, the
  empty signature of an empty slot included.  No slot is reported as changed right after
  it, and a second acknowledge gives the same state as the first, so none is reported
  after it either.
\<close>

theorem acknowledge_clears_changes:
  assumes "gridLayout cfg s"
  shows "changedSlots (snapshotSignatures cfg s) = {}
    \<and> changedSlots (snapshotSignatures cfg (snapshotSignatures cfg s)) = {}
    \<and> snapshotSignatures cfg (snapshotSignatures cfg s) = snapshotSignatures cfg s
    \<and> layout (snapshotSignatures cfg s) = layout s
    \<and> containers (snapshotSignatures cfg s) = containers s
    \<and> inboundIds (snapshotSignatures cfg s) = inboundIds s
    \<and> selectedContainerId (snapshotSignatures cfg s) = selectedContainerId s
    \<and> distinct (map fst (prevSig (snapshotSignatures cfg s)))
    \<and> set (map fst (prevSig (snapshotSignatures cfg s))) = set (allSlots cfg)
    \<and> map_of (prevSig (snapshotSignatures cfg s))
        = (\<lambda>slot. if slot \<in> set (allSlots cfg) then Some (slotSignature (stackOf (layout s) slot)) else None)"
proof -
  have c: "changedSlots (snapshotSignatures cfg s) = {}"
    using assms acknowledged_unchanged [of "layout s" "allSlots cfg"]
    by (simp add: gridLayout_def changedSlots_def snapshotSignatures_def)
  have i: "snapshotSignatures cfg (snapshotSignatures cfg s) = snapshotSignatures cfg s"
    by (simp add: snapshotSignatures_def)
  have k: "set (map fst (prevSig (snapshotSignatures cfg s))) = set (allSlots cfg)"
    using keys_objectOf [of "\<lambda>k. slotSignature (stackOf (layout s) k)" "allSlots cfg"]
    by (simp add: snapshotSignatures_def)
  have m: "map_of (prevSig (snapshotSignatures cfg s))
        = (\<lambda>slot. if slot \<in> set (allSlots cfg) then Some (slotSignature (stackOf (layout s) slot)) else None)"
    by (rule ext) (simp add: snapshotSignatures_def map_of_objectOf)
  have d: "distinct (map fst (prevSig (snapshotSignatures cfg s)))"
    by (simp add: snapshotSignatures_def distinct_objectOf)
  have f: "layout (snapshotSignatures cfg s) = layout s"
    "containers (snapshotSignatures cfg s) = containers s"
    "inboundIds (snapshotSignatures cfg s) = inboundIds s"
    "selectedContainerId (snapshotSignatures cfg s) = selectedContainerId s"
    by (simp_all add: snapshotSignatures_def)
  from c i k m d f show ?thesis by (simp only: simp_thms)
qed

text \<open>
  Claim C8.  \<open>reorderWithinSlot\<close> with an index outside \<open>[0, |stack|)\<close> returns
  without a \<open>setState\<close> call and without an alert: the state is the one before.
\<close>

theorem reorder_invalid_index_noop:
  assumes "\<not> (0 \<le> fromIndex \<and> fromIndex < int (length (stackOf (layout s) slot)))
         \<or> \<not> (0 \<le> toIndex \<and> toIndex < int (length (stackOf (layout s) slot)))"
  shows "reorderWithinSlot slot fromIndex toIndex s = s
    \<and> step cfg (Reorder slot fromIndex toIndex) s = Some s"
  using assms by (auto simp: reorderWithinSlot_def Let_def)

subsection \<open>The default grid\<close>

lemma allSlots_default:
  "allSlots DEFAULT_CONFIG =
     [''A-R01-C01'', ''A-R01-C02'', ''A-R01-C03'', ''A-R01-C04'', ''A-R01-C05'', ''A-R01-C06'',
      ''A-R02-C01'', ''A-R02-C02'', ''A-R02-C03'', ''A-R02-C04'', ''A-R02-C05'', ''A-R02-C06'',
      ''A-R03-C01'', ''A-R03-C02'', ''A-R03-C03'', ''A-R03-C04'', ''A-R03-C05'', ''A-R03-C06'',
      ''A-R04-C01'', ''A-R04-C02'', ''A-R04-C03'', ''A-R04-C04'', ''A-R04-C05'', ''A-R04-C06'',
      ''B-R01-C01'', ''B-R01-C02'', ''B-R01-C03'', ''B-R01-C04'', ''B-R01-C05'', ''B-R01-C06'',
      ''B-R02-C01'', ''B-R02-C02'', ''B-R02-C03'', ''B-R02-C04'', ''B-R02-C05'', ''B-R02-C06'',
      ''B-R03-C01'', ''B-R03-C02'', ''B-R03-C03'', ''B-R03-C04'', ''B-R03-C05'', ''B-R03-C06'',
      ''B-R04-C01'', ''B-R04-C02'', ''B-R04-C03'', ''B-R04-C04'', ''B-R04-C05'', ''B-R04-C06'',
      ''C-R01-C01'', ''C-R01-C02'', ''C-R01-C03'', ''C-R01-C04'', ''C-R01-C05'', ''C-R01-C06'',
      ''C-R02-C01'', ''C-R02-C02'', ''C-R02-C03'', ''C-R02-C04'', ''C-R02-C05'', ''C-R02-C06'',
      ''C-R03-C01'', ''C-R03-C02'', ''C-R03-C03'', ''C-R03-C04'', ''C-R03-C05'', ''C-R03-C06'',
      ''C-R04-C01'', ''C-R04-C02'', ''C-R04-C03'', ''C-R04-C04'', ''C-R04-C05'', ''C-R04-C06'']"
  by (simp add: allSlots_def DEFAULT_CONFIG_def buildSlotId_def padStart_def decimal.simps digitChar_def upt_rec)

lemma first_slot_default: "''A-R01-C01'' \<in> set (allSlots DEFAULT_CONFIG)"
  by (simp add: allSlots_default)

lemma gridLayout_initial: "gridLayout cfg (initial cfg)"
  using keys_objectOf [of "\<lambda>s. []" "allSlots cfg"]
  by (simp add: gridLayout_def initial_def distinct_objectOf)

subsection \<open>Change detection on the example yard\<close>

lemma changed_a:
  "k \<in> set (map fst (filter (\<lambda>(slot, stack). slotSignature stack \<noteq> prevOf p slot) l))
     \<longleftrightarrow> (\<exists>st. (k, st) \<in> set l \<and> slotSignature st \<noteq> prevOf p k)"
  by (induction l) auto
lemma changed_b:
  assumes "distinct (map fst l)"
  shows "(\<exists>st. (k, st) \<in> set l \<and> slotSignature st \<noteq> prevOf p k)
      \<longleftrightarrow> (k \<in> fst ` set l \<and> slotSignature (stackOf l k) \<noteq> prevOf p k)"
proof
  assume "\<exists>st. (k, st) \<in> set l \<and> slotSignature st \<noteq> prevOf p k"
  then obtain st where e: "(k, st) \<in> set l" and n: "slotSignature st \<noteq> prevOf p k" by blast
  from assms e have "stackOf l k = st" by (rule stackOf_entry)
  moreover from e have "k \<in> fst ` set l" by (rule image_eqI [rotated]) simp
  ultimately show "k \<in> fst ` set l \<and> slotSignature (stackOf l k) \<noteq> prevOf p k" using n by simp
next
  assume a: "k \<in> fst ` set l \<and> slotSignature (stackOf l k) \<noteq> prevOf p k"
  then obtain st where e: "(k, st) \<in> set l" by fastforce
  from assms e have "stackOf l k = st" by (rule stackOf_entry)
  with a e show "\<exists>st. (k, st) \<in> set l \<and> slotSignature st \<noteq> prevOf p k" by blast
qed
lemma changed_c:
  "k \<in> set (filter (\<lambda>slot. slot \<notin> set (map fst l)) (map fst p)) \<longleftrightarrow> (k \<in> fst ` set p \<and> k \<notin> fst ` set l)"
  by auto

lemma changed_iff:
  assumes "distinct (map fst l)"
  shows "k \<in> computeChangedSlots l p \<longleftrightarrow>
     (k \<in> fst ` set l \<and> slotSignature (stackOf l k) \<noteq> prevOf p k) \<or> (k \<in> fst ` set p \<and> k \<notin> fst ` set l)"
  unfolding computeChangedSlots_def Un_iff changed_a changed_b [OF assms] changed_c ..

lemma layout_yardStacked:
  "layout yardStacked = AList.update ''A-R01-C01'' [''CONT-100001'', ''CONT-100002''] (layout (initial DEFAULT_CONFIG))"
  by (simp add: yardStacked_def initial_def)

lemma stackOf_initial: "stackOf (layout (initial cfg)) k = []"
  by (simp add: initial_def stackOf_objectOf)

lemma stackOf_yardStacked:
  "stackOf (layout yardStacked) k = (if k = ''A-R01-C01'' then [''CONT-100001'', ''CONT-100002''] else [])"
  by (simp add: layout_yardStacked stackOf_update stackOf_initial)

lemma gridLayout_yardStacked: "gridLayout DEFAULT_CONFIG yardStacked"
proof -
  have "distinct (map fst (layout (initial DEFAULT_CONFIG)))"
    and k: "fst ` set (layout (initial DEFAULT_CONFIG)) = set (allSlots DEFAULT_CONFIG)"
    using gridLayout_initial [of DEFAULT_CONFIG] by (simp_all add: gridLayout_def)
  then have "distinct (map fst (layout yardStacked))"
    unfolding layout_yardStacked by (simp only: distinct_update)
  moreover have "fst ` set (layout yardStacked) = set (allSlots DEFAULT_CONFIG)"
    unfolding layout_yardStacked dom_update k using first_slot_default by blast
  ultimately show ?thesis by (simp add: gridLayout_def)
qed

lemma changed_yardStacked: "changedSlots yardStacked = {''A-R01-C01''}"
proof -
  have d: "distinct (map fst (layout yardStacked))"
    using gridLayout_yardStacked by (simp add: gridLayout_def)
  have k: "fst ` set (layout yardStacked) = set (allSlots DEFAULT_CONFIG)"
    using gridLayout_yardStacked by (simp add: gridLayout_def)
  have p: "prevSig yardStacked = []" by (simp add: yardStacked_def initial_def)
  have "\<And>x. x \<in> changedSlots yardStacked \<longleftrightarrow> x = ''A-R01-C01''"
  proof -
    fix x
    have "x \<in> changedSlots yardStacked \<longleftrightarrow>
        (x \<in> set (allSlots DEFAULT_CONFIG) \<and> slotSignature (stackOf (layout yardStacked) x) \<noteq> [])"
      unfolding changedSlots_def changed_iff [OF d] k p by (simp add: prevOf_def)
    also have "\<dots> \<longleftrightarrow> x = ''A-R01-C01''"
      using first_slot_default by (auto simp: stackOf_yardStacked slotSignature_def)
    finally show "x \<in> changedSlots yardStacked \<longleftrightarrow> x = ''A-R01-C01''" .
  qed
  then show ?thesis by blast
qed

lemma second_slot_default: "''A-R01-C02'' \<in> set (allSlots DEFAULT_CONFIG)"
  by (simp add: allSlots_default)

theorem acknowledge_clears_changes_witness:
  "gridLayout DEFAULT_CONFIG yardStacked \<and> changedSlots yardStacked = {''A-R01-C01''}
   \<and> changedSlots (snapshotSignatures DEFAULT_CONFIG yardStacked) = {}
   \<and> changedSlots (snapshotSignatures DEFAULT_CONFIG (snapshotSignatures DEFAULT_CONFIG yardStacked)) = {}
   \<and> layout (snapshotSignatures DEFAULT_CONFIG yardStacked) = layout yardStacked
   \<and> containers (snapshotSignatures DEFAULT_CONFIG yardStacked) = containers yardStacked
   \<and> inboundIds (snapshotSignatures DEFAULT_CONFIG yardStacked) = inboundIds yardStacked
   \<and> map_of (prevSig (snapshotSignatures DEFAULT_CONFIG yardStacked)) ''A-R01-C01'' = Some ''CONT-100001|CONT-100002''
   \<and> map_of (prevSig (snapshotSignatures DEFAULT_CONFIG yardStacked)) ''A-R01-C02'' = Some ''''
   \<and> map_of (prevSig (snapshotSignatures DEFAULT_CONFIG yardStacked)) ''Z-R99-C99'' = None"
proof -
  note t = acknowledge_clears_changes [OF gridLayout_yardStacked]
  have z: "''Z-R99-C99'' \<notin> set (allSlots DEFAULT_CONFIG)" by (simp add: allSlots_default)
  have a: "map_of (prevSig (snapshotSignatures DEFAULT_CONFIG yardStacked)) ''A-R01-C01'' = Some ''CONT-100001|CONT-100002''"
    using t first_slot_default by (simp add: stackOf_yardStacked slotSignature_def)
  have b: "map_of (prevSig (snapshotSignatures DEFAULT_CONFIG yardStacked)) ''A-R01-C02'' = Some ''''"
    using t second_slot_default by (simp add: stackOf_yardStacked slotSignature_def)
  have c: "map_of (prevSig (snapshotSignatures DEFAULT_CONFIG yardStacked)) ''Z-R99-C99'' = None"
    using t z by simp
  from t a b c gridLayout_yardStacked changed_yardStacked show ?thesis by (simp only: simp_thms)
qed

theorem reorder_invalid_index_noop_witness:
  "\<not> (0 \<le> (2::int) \<and> 2 < int (length (stackOf (layout yardStacked) ''A-R01-C01'')))
   \<and> reorderWithinSlot ''A-R01-C01'' 2 0 yardStacked = yardStacked
   \<and> reorderWithinSlot ''A-R01-C01'' 0 (-1) yardStacked = yardStacked"
proof -
  have a: "\<not> (0 \<le> (2::int) \<and> 2 < int (length (stackOf (layout yardStacked) ''A-R01-C01'')))"
    by (simp add: stackOf_yardStacked)
  have b: "\<not> (0 \<le> (-1::int) \<and> -1 < int (length (stackOf (layout yardStacked) ''A-R01-C01'')))"
    by simp
  from reorder_invalid_index_noop [of 2 yardStacked "''A-R01-C01''" 0 DEFAULT_CONFIG] a
       reorder_invalid_index_noop [of 0 yardStacked "''A-R01-C01''" "-1" DEFAULT_CONFIG] b
  show ?thesis by blast
qed

section \<open>Manual move\<close>

lemma removal_step: "(if cid \<in> set st then filter (\<lambda>x. x \<noteq> cid) st else st) = filter (\<lambda>x. x \<noteq> cid) st"
  by (induction st) auto

lemma removal_filter:
  "(\<lambda>(k, st). (k, if cid \<in> set st then filter (\<lambda>x. x \<noteq> cid) st else st))
     = (\<lambda>(k, st). (k, filter (\<lambda>x. x \<noteq> cid) st))"
  by (simp only: removal_step)

lemma stackOf_removal: "stackOf (map (\<lambda>(k, st). (k, filter P st)) l) k = filter P (stackOf l k)"
  by (induction l) (auto simp: stackOf_def)

lemma moveSelectedToSlot_full:
  assumes "selectedContainerId s = Some cid" and "cid \<noteq> []"
    and "stackLimit cfg \<le> length (filter (\<lambda>x. x \<noteq> cid) (stackOf (layout s) target))"
  shows "moveSelectedToSlot cfg now target s = (Some (SlotFull target (stackLimit cfg)), s)"
  using assms by (simp add: moveSelectedToSlot_def removal_filter stackOf_removal Let_def)

lemma moveSelectedToSlot_room:
  assumes "selectedContainerId s = Some cid" and "cid \<noteq> []"
    and "length (filter (\<lambda>x. x \<noteq> cid) (stackOf (layout s) target)) < stackLimit cfg"
  shows "moveSelectedToSlot cfg now target s = (None,
     s\<lparr>layout := AList.update target (filter (\<lambda>x. x \<noteq> cid) (stackOf (layout s) target) @ [cid]) (map (\<lambda>(k, st). (k, filter (\<lambda>x. x \<noteq> cid) st)) (layout s)),
       inboundIds := filter (\<lambda>x. x \<noteq> cid) (inboundIds s),
       containers := (containers s)(cid \<mapsto>
          (case containers s cid of None \<Rightarrow> noFields\<lparr>id_c := Some cid\<rparr> | Some c \<Rightarrow> c)
            \<lparr>status := Some IN_YARD, movedAt := Some now, slotId := Some target\<rparr>)\<rparr>)"
  using assms by (simp add: moveSelectedToSlot_def removal_filter stackOf_removal Let_def)

text \<open>
  Claim C3, as amended.  With a container selected that is not itself in the target
  slot's stack, \<open>moveSelectedToSlot\<close> to a slot whose stack is at (or over) the stack
  limit shows the slot-full alert and returns before any \<open>setState\<close> call: the
  container store, the inbound queue and the layout are the ones before the call.
\<close>

theorem move_to_full_slot_rejected:
  assumes "selectedContainerId s = Some cid" and "cid \<noteq> []"
    and "cid \<notin> set (stackOf (layout s) target)"
    and "stackLimit cfg \<le> length (stackOf (layout s) target)"
  shows "moveSelectedToSlot cfg now target s = (Some (SlotFull target (stackLimit cfg)), s)"
proof -
  from assms(3) have "filter (\<lambda>x. x \<noteq> cid) (stackOf (layout s) target) = stackOf (layout s) target"
    by (auto simp: filter_id_conv)
  with assms show ?thesis by (simp add: moveSelectedToSlot_full)
qed

text \<open>
  Claim C10, as amended.  If the selected container is already in the target slot's stack
  and that stack is within the stack limit (at the limit included), the move shows no
  alert: the limit is checked on the working copy, from which the container is already
  removed, and the container ends at the top of the same stack.
\<close>

theorem move_within_full_slot_succeeds:
  assumes "selectedContainerId s = Some cid" and "cid \<noteq> []"
    and "cid \<in> set (stackOf (layout s) target)"
    and "length (stackOf (layout s) target) \<le> stackLimit cfg"
  shows "fst (moveSelectedToSlot cfg now target s) = None
    \<and> stackOf (layout (snd (moveSelectedToSlot cfg now target s))) target
        = filter (\<lambda>x. x \<noteq> cid) (stackOf (layout s) target) @ [cid]
    \<and> last (stackOf (layout (snd (moveSelectedToSlot cfg now target s))) target) = cid"
proof -
  from assms(3) have "length (filter (\<lambda>x. x \<noteq> cid) (stackOf (layout s) target)) < length (stackOf (layout s) target)"
    by (simp add: length_filter_less)
  with assms(4) have "length (filter (\<lambda>x. x \<noteq> cid) (stackOf (layout s) target)) < stackLimit cfg"
    by simp
  from moveSelectedToSlot_room [OF assms(1,2) this] show ?thesis
    by (simp add: stackOf_update)
qed

text \<open>
  Claim C4, as amended.  For a selected identifier that is absent from the container
  store there is no unknown-container error.  If the target slot is full the slot-full
  alert is shown and the state is unchanged; otherwise the move goes through: the
  identifier is appended to the target's stack, removed from the inbound queue, and a
  record \<open>{ id, status: IN_YARD, movedAt, slotId }\<close> is created for it.
\<close>

theorem move_unknown_container_creates_record:
  assumes "selectedContainerId s = Some cid" and "cid \<noteq> []" and "containers s cid = None"
  shows "(stackLimit cfg \<le> length (filter (\<lambda>x. x \<noteq> cid) (stackOf (layout s) target)) \<longrightarrow>
            moveSelectedToSlot cfg now target s = (Some (SlotFull target (stackLimit cfg)), s))
    \<and> (length (filter (\<lambda>x. x \<noteq> cid) (stackOf (layout s) target)) < stackLimit cfg \<longrightarrow>
            fst (moveSelectedToSlot cfg now target s) = None
          \<and> containers (snd (moveSelectedToSlot cfg now target s)) cid
               = Some (noFields\<lparr>id_c := Some cid, status := Some IN_YARD, movedAt := Some now, slotId := Some target\<rparr>)
          \<and> stackOf (layout (snd (moveSelectedToSlot cfg now target s))) target
               = filter (\<lambda>x. x \<noteq> cid) (stackOf (layout s) target) @ [cid]
          \<and> inboundIds (snd (moveSelectedToSlot cfg now target s)) = filter (\<lambda>x. x \<noteq> cid) (inboundIds s))"
proof (intro conjI impI)
  assume "stackLimit cfg \<le> length (filter (\<lambda>x. x \<noteq> cid) (stackOf (layout s) target))"
  with assms show "moveSelectedToSlot cfg now target s = (Some (SlotFull target (stackLimit cfg)), s)"
    by (simp add: moveSelectedToSlot_full)
next
  assume r: "length (filter (\<lambda>x. x \<noteq> cid) (stackOf (layout s) target)) < stackLimit cfg"
  note m = moveSelectedToSlot_room [OF assms(1,2) r]
  show "fst (moveSelectedToSlot cfg now target s) = None" by (simp add: m)
  show "containers (snd (moveSelectedToSlot cfg now target s)) cid
      = Some (noFields\<lparr>id_c := Some cid, status := Some IN_YARD, movedAt := Some now, slotId := Some target\<rparr>)"
    using assms(3) by (simp add: m)
  show "stackOf (layout (snd (moveSelectedToSlot cfg now target s))) target
      = filter (\<lambda>x. x \<noteq> cid) (stackOf (layout s) target) @ [cid]"
    by (simp add: m stackOf_update)
  show "inboundIds (snd (moveSelectedToSlot cfg now target s)) = filter (\<lambda>x. x \<noteq> cid) (inboundIds s)"
    by (simp add: m)
qed

section \<open>Reordering within a slot\<close>

lemma length_spliceMove:
  "i < length st \<Longrightarrow> j < length st \<Longrightarrow> length (spliceMove i j st) = length st"
  by (auto simp: spliceMove_def Let_def)

lemma nth_mid: "length xs = j \<Longrightarrow> (xs @ [x] @ ys) ! j = x"
  by (simp add: nth_append)

lemma length_take_rest:
  "i < length st \<Longrightarrow> j < length st \<Longrightarrow> length (take j (take i st @ drop (Suc i) st)) = j"
  by auto

lemma nth_spliceMove:
  assumes "i < length st" and "j < length st"
  shows "spliceMove i j st ! j = st ! i"
  unfolding spliceMove_def Let_def by (rule nth_mid) (rule length_take_rest [OF assms])

lemma mset_spliceMove:
  assumes "i < length st"
  shows "mset (spliceMove i j st) = mset st"
proof -
  have "mset (spliceMove i j st) = mset (take j (take i st @ drop (Suc i) st) @ drop j (take i st @ drop (Suc i) st)) + {#st ! i#}"
    by (simp add: spliceMove_def Let_def)
  also have "\<dots> = mset (take i st @ drop (Suc i) st) + {#st ! i#}"
    by (simp only: append_take_drop_id)
  also have "\<dots> = mset (take i st @ st ! i # drop (Suc i) st)" by simp
  also have "\<dots> = mset st" using assms by (simp only: id_take_nth_drop [symmetric])
  finally show ?thesis .
qed

lemma spliceMove_changes:
  assumes "distinct st" and "i < length st" and "j < length st" and "i \<noteq> j"
  shows "spliceMove i j st \<noteq> st"
proof
  assume "spliceMove i j st = st"
  then have "st ! j = st ! i" using nth_spliceMove [OF assms(2,3)] by simp
  with assms show False by (simp add: nth_eq_iff_index_eq)
qed

lemma spliceMove_same: "i < length st \<Longrightarrow> spliceMove i i st = st"
  by (simp add: spliceMove_def Let_def id_take_nth_drop [symmetric])

lemma entry_update: "(k, v) \<in> set (AList.update k v l)"
  by (induction l) auto

lemma reorderWithinSlot_valid:
  assumes "0 \<le> fromIndex" and "fromIndex < int (length (stackOf (layout s) slot))"
    and "0 \<le> toIndex" and "toIndex < int (length (stackOf (layout s) slot))"
  shows "reorderWithinSlot slot fromIndex toIndex s
     = s\<lparr>layout := AList.update slot (spliceMove (nat fromIndex) (nat toIndex) (stackOf (layout s) slot)) (layout s)\<rparr>"
  using assms by (simp add: reorderWithinSlot_def Let_def)

lemma signature_inj:
  assumes "\<forall>x \<in> set xs \<union> set ys. isContainerId x" and "slotSignature xs = slotSignature ys"
  shows "xs = ys"
proof -
  from assms(1) have "\<forall>x \<in> set xs \<union> set ys. x \<noteq> [] \<and> CHR ''|'' \<notin> set x"
    using isContainerId_wellformed by blast
  then show ?thesis using assms(2) unfolding slotSignature_def by (rule join_inj)
qed

text \<open>
  Claim C7, as amended.  For a stack of distinct container identifiers and two different
  indices within the stack, \<open>reorderWithinSlot\<close> applied after an acknowledge changes
  the slot's signature, puts the slot into the set of changed slots, and keeps the
  multiset of identifiers of the stack.
\<close>

theorem reorder_changes_signature:
  assumes "0 \<le> fromIndex" and "fromIndex < int (length (stackOf (layout s) slot))"
    and "0 \<le> toIndex" and "toIndex < int (length (stackOf (layout s) slot))"
    and "fromIndex \<noteq> toIndex"
    and "distinct (stackOf (layout s) slot)"
    and "\<forall>x \<in> set (stackOf (layout s) slot). isContainerId x"
  shows "slotSignature (stackOf (layout (reorderWithinSlot slot fromIndex toIndex (snapshotSignatures cfg s))) slot)
           \<noteq> slotSignature (stackOf (layout s) slot)
    \<and> slot \<in> changedSlots (reorderWithinSlot slot fromIndex toIndex (snapshotSignatures cfg s))
    \<and> mset (stackOf (layout (reorderWithinSlot slot fromIndex toIndex (snapshotSignatures cfg s))) slot)
         = mset (stackOf (layout s) slot)"
proof -
  define st where "st = stackOf (layout s) slot"
  define new where "new = spliceMove (nat fromIndex) (nat toIndex) st"
  define a where "a = snapshotSignatures cfg s"
  have la: "layout a = layout s" by (simp add: a_def snapshotSignatures_def)
  have i: "nat fromIndex < length st" and j: "nat toIndex < length st" and ij: "nat fromIndex \<noteq> nat toIndex"
    using assms(1-5) by (auto simp: st_def)
  have r: "reorderWithinSlot slot fromIndex toIndex a = a\<lparr>layout := AList.update slot new (layout s)\<rparr>"
    using reorderWithinSlot_valid [of fromIndex a slot toIndex] assms(1-4)
    by (simp add: la new_def st_def)
  have sn: "stackOf (layout (reorderWithinSlot slot fromIndex toIndex a)) slot = new"
    by (simp add: r stackOf_update)
  have ms: "mset new = mset st" unfolding new_def using i by (rule mset_spliceMove)
  then have "set new = set st" by (rule mset_eq_setD)
  with assms(7) have ids: "\<forall>x \<in> set new \<union> set st. isContainerId x" by (simp add: st_def)
  have ne: "new \<noteq> st" unfolding new_def using assms(6) i j ij by (simp add: st_def spliceMove_changes)
  have sig: "slotSignature new \<noteq> slotSignature st" using signature_inj [OF ids] ne by blast
  have "new \<noteq> []" using ms i by auto
  moreover have "\<forall>x \<in> set new \<union> set []. isContainerId x" using ids by simp
  ultimately have sig0: "slotSignature new \<noteq> slotSignature []" using signature_inj by blast
  have "prevOf (prevSig a) slot = (if slot \<in> set (allSlots cfg) then slotSignature st else [])"
    by (simp add: a_def snapshotSignatures_def prevOf_objectOf st_def)
  with sig sig0 have "slotSignature new \<noteq> prevOf (prevSig a) slot"
    by (simp add: slotSignature_def)
  moreover have "(slot, new) \<in> set (AList.update slot new (layout s))" by (rule entry_update)
  ultimately have "slot \<in> changedSlots (reorderWithinSlot slot fromIndex toIndex a)"
    unfolding changedSlots_def computeChangedSlots_def Un_iff changed_a by (auto simp: r)
  with sn sig ms show ?thesis by (simp add: a_def st_def)
qed

section \<open>The operations on the example yard\<close>

subsection \<open>Moves\<close>

lemma stackOf_yardSelected:
  "stackOf (layout (yardSelected cid)) k = (if k = ''A-R01-C01'' then [''CONT-100001'', ''CONT-100002''] else [])"
  by (simp add: yardSelected_def stackOf_yardStacked)

lemma selected_yardSelected: "selectedContainerId (yardSelected cid) = Some cid"
  by (simp add: yardSelected_def)

lemma limit_default: "stackLimit DEFAULT_CONFIG = 2"
  by (simp add: DEFAULT_CONFIG_def)

theorem move_to_full_slot_rejected_witness:
  "selectedContainerId (yardSelected ''CONT-100003'') = Some ''CONT-100003''
   \<and> ''CONT-100003'' \<notin> set (stackOf (layout (yardSelected ''CONT-100003'')) ''A-R01-C01'')
   \<and> stackLimit DEFAULT_CONFIG \<le> length (stackOf (layout (yardSelected ''CONT-100003'')) ''A-R01-C01'')
   \<and> moveSelectedToSlot DEFAULT_CONFIG ''t2'' ''A-R01-C01'' (yardSelected ''CONT-100003'')
       = (Some (SlotFull ''A-R01-C01'' 2), yardSelected ''CONT-100003'')"
proof -
  have a: "selectedContainerId (yardSelected ''CONT-100003'') = Some ''CONT-100003''"
    by (rule selected_yardSelected)
  have b: "''CONT-100003'' \<noteq> []" by simp
  have c: "''CONT-100003'' \<notin> set (stackOf (layout (yardSelected ''CONT-100003'')) ''A-R01-C01'')"
    by (simp add: stackOf_yardSelected)
  have d: "stackLimit DEFAULT_CONFIG \<le> length (stackOf (layout (yardSelected ''CONT-100003'')) ''A-R01-C01'')"
    by (simp add: stackOf_yardSelected limit_default)
  from move_to_full_slot_rejected [OF a b c d, of "''t2''"] a c d show ?thesis
    by (simp add: limit_default)
qed

theorem move_to_full_slot_counterexample:
  "selectedContainerId (yardSelected ''CONT-100001'') = Some ''CONT-100001''
   \<and> length (stackOf (layout (yardSelected ''CONT-100001'')) ''A-R01-C01'') = stackLimit DEFAULT_CONFIG
   \<and> fst (moveSelectedToSlot DEFAULT_CONFIG ''t2'' ''A-R01-C01'' (yardSelected ''CONT-100001'')) = None
   \<and> layout (snd (moveSelectedToSlot DEFAULT_CONFIG ''t2'' ''A-R01-C01'' (yardSelected ''CONT-100001'')))
       \<noteq> layout (yardSelected ''CONT-100001'')"
proof -
  have a: "selectedContainerId (yardSelected ''CONT-100001'') = Some ''CONT-100001''"
    by (rule selected_yardSelected)
  have r: "length (filter (\<lambda>x. x \<noteq> ''CONT-100001'') (stackOf (layout (yardSelected ''CONT-100001'')) ''A-R01-C01''))
      < stackLimit DEFAULT_CONFIG"
    by (simp add: stackOf_yardSelected limit_default)
  note m = moveSelectedToSlot_room [OF a _ r, of "''t2''"]
  have "stackOf (layout (snd (moveSelectedToSlot DEFAULT_CONFIG ''t2'' ''A-R01-C01'' (yardSelected ''CONT-100001'')))) ''A-R01-C01''
      = [''CONT-100002'', ''CONT-100001'']"
    by (simp add: m stackOf_update stackOf_yardSelected)
  moreover have "stackOf (layout (yardSelected ''CONT-100001'')) ''A-R01-C01'' = [''CONT-100001'', ''CONT-100002'']"
    by (simp add: stackOf_yardSelected)
  ultimately have "layout (snd (moveSelectedToSlot DEFAULT_CONFIG ''t2'' ''A-R01-C01'' (yardSelected ''CONT-100001'')))
       \<noteq> layout (yardSelected ''CONT-100001'')"
    by auto
  moreover have "fst (moveSelectedToSlot DEFAULT_CONFIG ''t2'' ''A-R01-C01'' (yardSelected ''CONT-100001'')) = None"
    by (simp add: m)
  ultimately show ?thesis using a by (simp add: stackOf_yardSelected limit_default)
qed

theorem move_within_full_slot_succeeds_witness:
  "''CONT-100001'' \<in> set (stackOf (layout (yardSelected ''CONT-100001'')) ''A-R01-C01'')
   \<and> length (stackOf (layout (yardSelected ''CONT-100001'')) ''A-R01-C01'') = stackLimit DEFAULT_CONFIG
   \<and> fst (moveSelectedToSlot DEFAULT_CONFIG ''t2'' ''A-R01-C01'' (yardSelected ''CONT-100001'')) = None
   \<and> stackOf (layout (snd (moveSelectedToSlot DEFAULT_CONFIG ''t2'' ''A-R01-C01'' (yardSelected ''CONT-100001'')))) ''A-R01-C01''
       = [''CONT-100002'', ''CONT-100001'']"
proof -
  have a: "selectedContainerId (yardSelected ''CONT-100001'') = Some ''CONT-100001''"
    by (rule selected_yardSelected)
  have b: "''CONT-100001'' \<noteq> []" by simp
  have c: "''CONT-100001'' \<in> set (stackOf (layout (yardSelected ''CONT-100001'')) ''A-R01-C01'')"
    by (simp add: stackOf_yardSelected)
  have d: "length (stackOf (layout (yardSelected ''CONT-100001'')) ''A-R01-C01'') \<le> stackLimit DEFAULT_CONFIG"
    by (simp add: stackOf_yardSelected limit_default)
  from move_within_full_slot_succeeds [OF a b c d, of "''t2''"] c show ?thesis
    by (simp add: stackOf_yardSelected limit_default)
qed

lemma store_yardSelected_unknown: "containers (yardSelected cid) ''CONT-999999'' = None"
  by (simp add: yardSelected_def yardStacked_def)

theorem move_unknown_container_counterexample:
  "containers (yardSelected ''CONT-999999'') ''CONT-999999'' = None
   \<and> fst (moveSelectedToSlot DEFAULT_CONFIG ''t2'' ''A-R01-C02'' (yardSelected ''CONT-999999'')) = None
   \<and> containers (snd (moveSelectedToSlot DEFAULT_CONFIG ''t2'' ''A-R01-C02'' (yardSelected ''CONT-999999''))) ''CONT-999999''
       \<noteq> None
   \<and> stackOf (layout (snd (moveSelectedToSlot DEFAULT_CONFIG ''t2'' ''A-R01-C02'' (yardSelected ''CONT-999999'')))) ''A-R01-C02''
       = [''CONT-999999'']
   \<and> stackOf (layout (yardSelected ''CONT-999999'')) ''A-R01-C02'' = []"
proof -
  have a: "selectedContainerId (yardSelected ''CONT-999999'') = Some ''CONT-999999''"
    by (rule selected_yardSelected)
  have r: "length (filter (\<lambda>x. x \<noteq> ''CONT-999999'') (stackOf (layout (yardSelected ''CONT-999999'')) ''A-R01-C02''))
      < stackLimit DEFAULT_CONFIG"
    by (simp add: stackOf_yardSelected limit_default)
  note m = moveSelectedToSlot_room [OF a _ r, of "''t2''"]
  show ?thesis
    by (simp add: m stackOf_update stackOf_yardSelected store_yardSelected_unknown)
qed

theorem move_unknown_container_creates_record_witness:
  "containers (yardSelected ''CONT-999999'') ''CONT-999999'' = None
   \<and> length (filter (\<lambda>x. x \<noteq> ''CONT-999999'') (stackOf (layout (yardSelected ''CONT-999999'')) ''B-R01-C01''))
        < stackLimit DEFAULT_CONFIG
   \<and> stackLimit DEFAULT_CONFIG
        \<le> length (filter (\<lambda>x. x \<noteq> ''CONT-999999'') (stackOf (layout (yardSelected ''CONT-999999'')) ''A-R01-C01''))
   \<and> moveSelectedToSlot DEFAULT_CONFIG ''t2'' ''A-R01-C01'' (yardSelected ''CONT-999999'')
        = (Some (SlotFull ''A-R01-C01'' 2), yardSelected ''CONT-999999'')
   \<and> fst (moveSelectedToSlot DEFAULT_CONFIG ''t2'' ''B-R01-C01'' (yardSelected ''CONT-999999'')) = None
   \<and> containers (snd (moveSelectedToSlot DEFAULT_CONFIG ''t2'' ''B-R01-C01'' (yardSelected ''CONT-999999''))) ''CONT-999999''
        = Some (noFields\<lparr>id_c := Some ''CONT-999999'', status := Some IN_YARD, movedAt := Some ''t2'',
                  slotId := Some ''B-R01-C01''\<rparr>)
   \<and> stackOf (layout (snd (moveSelectedToSlot DEFAULT_CONFIG ''t2'' ''B-R01-C01'' (yardSelected ''CONT-999999'')))) ''B-R01-C01''
        = [''CONT-999999'']"
proof -
  have a: "selectedContainerId (yardSelected ''CONT-999999'') = Some ''CONT-999999''"
    by (rule selected_yardSelected)
  have b: "''CONT-999999'' \<noteq> []" by simp
  have c: "containers (yardSelected ''CONT-999999'') ''CONT-999999'' = None"
    by (rule store_yardSelected_unknown)
  have r: "length (filter (\<lambda>x. x \<noteq> ''CONT-999999'') (stackOf (layout (yardSelected ''CONT-999999'')) ''B-R01-C01''))
      < stackLimit DEFAULT_CONFIG"
    by (simp add: stackOf_yardSelected limit_default)
  have f: "stackLimit DEFAULT_CONFIG
      \<le> length (filter (\<lambda>x. x \<noteq> ''CONT-999999'') (stackOf (layout (yardSelected ''CONT-999999'')) ''A-R01-C01''))"
    by (simp add: stackOf_yardSelected limit_default)
  from move_unknown_container_creates_record [OF a b c, of DEFAULT_CONFIG "''B-R01-C01''" "''t2''"] r
       move_unknown_container_creates_record [OF a b c, of DEFAULT_CONFIG "''A-R01-C01''" "''t2''"] f c
  show ?thesis
    by (simp add: stackOf_yardSelected limit_default)
qed

subsection \<open>Reorderings\<close>

lemma reorder_same_index:
  assumes "0 \<le> i" and "i < int (length (stackOf (layout s) slot))" and "distinct (map fst (layout s))"
  shows "reorderWithinSlot slot i i s = s"
proof -
  have n: "nat i < length (stackOf (layout s) slot)" using assms(1,2) by simp
  then have "stackOf (layout s) slot \<noteq> []" by auto
  then obtain st where "map_of (layout s) slot = Some st"
    by (auto simp: stackOf_def split: option.splits)
  then have "map_of (layout s) slot = Some (stackOf (layout s) slot)" by (simp add: stackOf_def)
  then have "AList.update slot (stackOf (layout s) slot) (layout s) = layout s" by (rule update_triv)
  then show ?thesis
    using reorderWithinSlot_valid [OF assms(1,2) assms(1,2)] n by (simp add: spliceMove_same)
qed

theorem reorder_changes_signature_counterexample:
  "length (stackOf (layout yardStacked) ''A-R01-C01'') = 2
   \<and> reorderWithinSlot ''A-R01-C01'' 0 0 (snapshotSignatures DEFAULT_CONFIG yardStacked)
       = snapshotSignatures DEFAULT_CONFIG yardStacked
   \<and> slotSignature (stackOf (layout (reorderWithinSlot ''A-R01-C01'' 0 0 (snapshotSignatures DEFAULT_CONFIG yardStacked))) ''A-R01-C01'')
       = slotSignature (stackOf (layout yardStacked) ''A-R01-C01'')
   \<and> ''A-R01-C01'' \<notin> changedSlots (reorderWithinSlot ''A-R01-C01'' 0 0 (snapshotSignatures DEFAULT_CONFIG yardStacked))"
proof -
  have l: "layout (snapshotSignatures DEFAULT_CONFIG yardStacked) = layout yardStacked"
    by (simp add: snapshotSignatures_def)
  have d: "distinct (map fst (layout yardStacked))" and k: "set (map fst (layout yardStacked)) = set (allSlots DEFAULT_CONFIG)"
    using gridLayout_yardStacked by (simp_all add: gridLayout_def)
  have e: "reorderWithinSlot ''A-R01-C01'' 0 0 (snapshotSignatures DEFAULT_CONFIG yardStacked)
      = snapshotSignatures DEFAULT_CONFIG yardStacked"
    by (rule reorder_same_index) (simp_all add: l stackOf_yardStacked d)
  have "changedSlots (snapshotSignatures DEFAULT_CONFIG yardStacked) = {}"
    using acknowledged_unchanged [OF d k] by (simp add: changedSlots_def snapshotSignatures_def)
  then show ?thesis by (simp add: e l stackOf_yardStacked)
qed

theorem reorder_changes_signature_witness:
  "distinct (stackOf (layout yardStacked) ''A-R01-C01'')
   \<and> isContainerId ''CONT-100001'' \<and> isContainerId ''CONT-100002''
   \<and> (1::int) < int (length (stackOf (layout yardStacked) ''A-R01-C01''))
   \<and> stackOf (layout (reorderWithinSlot ''A-R01-C01'' 0 1 (snapshotSignatures DEFAULT_CONFIG yardStacked))) ''A-R01-C01''
       = [''CONT-100002'', ''CONT-100001'']
   \<and> slotSignature (stackOf (layout (reorderWithinSlot ''A-R01-C01'' 0 1 (snapshotSignatures DEFAULT_CONFIG yardStacked))) ''A-R01-C01'')
       \<noteq> slotSignature (stackOf (layout yardStacked) ''A-R01-C01'')
   \<and> ''A-R01-C01'' \<in> changedSlots (reorderWithinSlot ''A-R01-C01'' 0 1 (snapshotSignatures DEFAULT_CONFIG yardStacked))"
proof -
  have a: "(0::int) \<le> 0" by simp
  have b: "(0::int) < int (length (stackOf (layout yardStacked) ''A-R01-C01''))"
    by (simp add: stackOf_yardStacked)
  have c: "(0::int) \<le> 1" by simp
  have d: "(1::int) < int (length (stackOf (layout yardStacked) ''A-R01-C01''))"
    by (simp add: stackOf_yardStacked)
  have e: "(0::int) \<noteq> 1" by simp
  have f: "distinct (stackOf (layout yardStacked) ''A-R01-C01'')"
    by (simp add: stackOf_yardStacked)
  have g: "\<forall>x \<in> set (stackOf (layout yardStacked) ''A-R01-C01''). isContainerId x"
    using isContainerId_1 isContainerId_2 by (simp add: stackOf_yardStacked)
  have l: "layout (snapshotSignatures DEFAULT_CONFIG yardStacked) = layout yardStacked"
    by (simp add: snapshotSignatures_def)
  have "reorderWithinSlot ''A-R01-C01'' 0 1 (snapshotSignatures DEFAULT_CONFIG yardStacked)
      = (snapshotSignatures DEFAULT_CONFIG yardStacked)\<lparr>layout :=
          AList.update ''A-R01-C01'' (spliceMove (nat 0) (nat 1) [''CONT-100001'', ''CONT-100002'']) (layout yardStacked)\<rparr>"
    using reorderWithinSlot_valid [of 0 "snapshotSignatures DEFAULT_CONFIG yardStacked" "''A-R01-C01''" 1]
    by (simp add: l stackOf_yardStacked)
  then have h: "stackOf (layout (reorderWithinSlot ''A-R01-C01'' 0 1 (snapshotSignatures DEFAULT_CONFIG yardStacked))) ''A-R01-C01''
       = [''CONT-100002'', ''CONT-100001'']"
    by (simp add: stackOf_update spliceMove_def)
  from reorder_changes_signature [OF a b c d e f g, of DEFAULT_CONFIG] d f h
    isContainerId_1 isContainerId_2
  show ?thesis by (simp only: simp_thms)
qed

section \<open>Automatic placement\<close>

lemma autoPlaceLoop_none:
  "firstAvailableSlot cfg lay = None \<Longrightarrow> autoPlaceLoop cfg lay clock n placed acc = (placed, acc)"
  by (cases acc) (auto simp: autoPlaceLoop.simps)

lemma autoPlaceLoop_stop:
  "I = [] \<or> n \<le> placed \<Longrightarrow> autoPlaceLoop cfg lay clock n placed (L, C, I) = (placed, L, C, I)"
  by (auto simp: autoPlaceLoop.simps)

lemma autoPlaceLoop_step:
  assumes "firstAvailableSlot cfg lay = Some slot" and "placed < n"
  shows "autoPlaceLoop cfg lay clock n placed (L, C, I @ [x])
     = autoPlaceLoop cfg lay clock n (Suc placed)
         (AList.update slot (stackOf L slot @ [x]) L,
          C(x \<mapsto> (baseOf C x)\<lparr>status := Some IN_YARD, placedAt := Some (clock placed), slotId := Some slot\<rparr>),
          I)"
  using assms by (subst autoPlaceLoop.simps) simp

text \<open>
  What the loop of \<open>autoPlace\<close> does when the render's layout has a slot with room:
  it moves \<open>k = min (n - placed) |inbound|\<close> containers, oldest first, and all of them
  onto the stack of that one slot.
\<close>

lemma autoPlaceLoop_some:
  assumes "firstAvailableSlot cfg lay = Some slot"
    and "k \<le> length I" and "placed + k \<le> n" and "k = length I \<or> placed + k = n"
  shows "\<exists>C'. autoPlaceLoop cfg lay clock n placed (L, C, I)
     = (placed + k,
        (if k = 0 then L else AList.update slot (stackOf L slot @ rev (drop (length I - k) I)) L),
        C', take (length I - k) I)"
  using assms(2-4)
proof (induction k arbitrary: placed L C I)
  case 0
  then have "I = [] \<or> n \<le> placed" by auto
  then show ?case by (simp add: autoPlaceLoop_stop)
next
  case (Suc k)
  then have "I \<noteq> []" by auto
  then obtain J x where I: "I = J @ [x]" by (metis rev_exhaust)
  from Suc.prems have p: "placed < n" by simp
  define L1 where "L1 = AList.update slot (stackOf L slot @ [x]) L"
  have k1: "k \<le> length J" and k2: "Suc placed + k \<le> n" and k3: "k = length J \<or> Suc placed + k = n"
    using Suc.prems I by auto
  from Suc.IH [OF k1 k2 k3] obtain C' where
    r: "autoPlaceLoop cfg lay clock n (Suc placed)
          (L1, C(x \<mapsto> (baseOf C x)\<lparr>status := Some IN_YARD, placedAt := Some (clock placed), slotId := Some slot\<rparr>), J)
        = (Suc placed + k,
           (if k = 0 then L1 else AList.update slot (stackOf L1 slot @ rev (drop (length J - k) J)) L1),
           C', take (length J - k) J)"
    by blast
  have lay: "(if k = 0 then L1 else AList.update slot (stackOf L1 slot @ rev (drop (length J - k) J)) L1)
      = AList.update slot (stackOf L slot @ rev (drop (length I - Suc k) I)) L"
  proof (cases "k = 0")
    case True
    then show ?thesis by (simp add: L1_def I)
  next
    case False
    have "drop (length I - Suc k) I = drop (length J - k) J @ [x]" using k1 by (simp add: I)
    then show ?thesis using False by (simp add: L1_def stackOf_update)
  qed
  have inb: "take (length J - k) J = take (length I - Suc k) I" by (simp add: I)
  show ?case
    using autoPlaceLoop_step [OF assms(1) p, of clock L C J x] r
    unfolding I [symmetric] L1_def [symmetric] lay inb by simp
qed

text \<open>
  The count and the layout of a call of \<open>autoPlace\<close>: when some slot has room in the
  render's layout, \<open>min n |inbound|\<close> containers are placed, whatever the free capacity
  of the yard, and they are appended, oldest first, to that slot's stack.
\<close>

lemma autoPlace_on_first_slot:
  assumes "firstAvailableSlot cfg (layout s) = Some slot"
  shows "autoPlaced cfg clock n s = min n (length (inboundIds s))
    \<and> inboundIds (autoPlace cfg clock n s) = take (length (inboundIds s) - min n (length (inboundIds s))) (inboundIds s)
    \<and> layout (autoPlace cfg clock n s)
        = (if min n (length (inboundIds s)) = 0 then layout s
           else AList.update slot
                  (stackOf (layout s) slot
                    @ rev (drop (length (inboundIds s) - min n (length (inboundIds s))) (inboundIds s)))
                  (layout s))"
proof -
  define k where "k = min n (length (inboundIds s))"
  have "k \<le> length (inboundIds s)" and "0 + k \<le> n" and "k = length (inboundIds s) \<or> 0 + k = n"
    by (auto simp: k_def)
  from autoPlaceLoop_some [OF assms this, of clock "layout s" "containers s"]
  obtain C' where "autoPlaceLoop cfg (layout s) clock n 0 (layout s, containers s, inboundIds s)
     = (k, (if k = 0 then layout s
            else AList.update slot (stackOf (layout s) slot @ rev (drop (length (inboundIds s) - k) (inboundIds s))) (layout s)),
        C', take (length (inboundIds s) - k) (inboundIds s))"
    by auto
  then show ?thesis unfolding k_def [symmetric] by (simp add: autoPlaced_def autoPlace_def)
qed

lemma autoPlace_on_full_yard:
  assumes "firstAvailableSlot cfg (layout s) = None"
  shows "autoPlaced cfg clock n s = 0 \<and> autoPlace cfg clock n s = s"
  using assms by (simp add: autoPlaced_def autoPlace_def autoPlaceLoop_none)

lemma first_available_initial_layout:
  assumes "layout s = layout (initial DEFAULT_CONFIG)"
  shows "firstAvailableSlot DEFAULT_CONFIG (layout s) = Some ''A-R01-C01''"
  by (simp add: firstAvailableSlot_def assms stackOf_initial allSlots_default limit_default)

lemma layout_yardPolled: "layout yardPolled = layout (initial DEFAULT_CONFIG)"
  by (simp add: yardPolled_def)

lemma inbound_yardPolled: "inboundIds yardPolled = [''CONT-100003'', ''CONT-100002'', ''CONT-100001'']"
  by (simp add: yardPolled_def)

lemma autoPlace_yardPolled:
  "\<exists>C'. autoPlaceLoop DEFAULT_CONFIG (layout yardPolled) clock 10 0 (layout yardPolled, containers yardPolled, inboundIds yardPolled)
     = (3, AList.update ''A-R01-C01'' [''CONT-100001'', ''CONT-100002'', ''CONT-100003''] (layout yardPolled), C', [])"
  using autoPlaceLoop_some [OF first_available_initial_layout [OF layout_yardPolled], of 3 "inboundIds yardPolled" 0 10
      clock "layout yardPolled" "containers yardPolled"]
  by (simp add: inbound_yardPolled layout_yardPolled stackOf_initial)

text \<open>
  Claim C1.  On an empty default yard with three inbound containers, \<open>autoPlace(10)\<close>
  places all three, oldest first, and puts them all on the stack of the first slot: the
  stack holds three containers where the stack limit is two.
\<close>

theorem autoPlace_exceeds_stack_limit:
  "autoPlaced DEFAULT_CONFIG (\<lambda>i. ''t1'') 10 yardPolled = 3
   \<and> stackOf (layout (autoPlace DEFAULT_CONFIG (\<lambda>i. ''t1'') 10 yardPolled)) ''A-R01-C01''
       = [''CONT-100001'', ''CONT-100002'', ''CONT-100003'']
   \<and> inboundIds (autoPlace DEFAULT_CONFIG (\<lambda>i. ''t1'') 10 yardPolled) = []
   \<and> stackLimit DEFAULT_CONFIG = 2"
proof -
  from autoPlace_yardPolled [of "\<lambda>i. ''t1''"] obtain C' where
    "autoPlaceLoop DEFAULT_CONFIG (layout yardPolled) (\<lambda>i. ''t1'') 10 0 (layout yardPolled, containers yardPolled, inboundIds yardPolled)
     = (3, AList.update ''A-R01-C01'' [''CONT-100001'', ''CONT-100002'', ''CONT-100003''] (layout yardPolled), C', [])"
    by blast
  then show ?thesis by (simp add: autoPlaced_def autoPlace_def stackOf_update limit_default)
qed

lemma entries_objectOf: "(k, v) \<in> set (objectOf f ks) \<Longrightarrow> v = f k"
proof -
  assume e: "(k, v) \<in> set (objectOf f ks)"
  have "map_of (objectOf f ks) k = Some v" using distinct_objectOf e by (rule map_of_is_SomeI)
  then show "v = f k" by (simp add: map_of_objectOf split: if_splits)
qed

lemma capacityOk_yardPolled: "capacityOk DEFAULT_CONFIG yardPolled"
  unfolding capacityOk_def list_all_iff
  by (auto simp: layout_yardPolled initial_def dest: entries_objectOf)

lemma stackedIds_initial: "stackedIds (initial cfg) = []"
  unfolding stackedIds_def by (auto simp: initial_def dest: entries_objectOf)

lemma noDuplicateIds_yardPolled: "noDuplicateIds yardPolled"
proof -
  have "stackedIds yardPolled = stackedIds (initial DEFAULT_CONFIG)"
    by (simp add: stackedIds_def layout_yardPolled)
  then show ?thesis by (simp add: noDuplicateIds_def stackedIds_initial)
qed

text \<open>
  Claim C2.  The empty default yard with three inbound containers satisfies the capacity
  bound and has no duplicate identifier in its stacks; after the single operation
  \<open>autoPlace(10)\<close> the first slot is over the stack limit.
\<close>

theorem capacity_broken_by_autoPlace:
  "capacityOk DEFAULT_CONFIG yardPolled \<and> noDuplicateIds yardPolled
   \<and> run DEFAULT_CONFIG [AutoPlace 10 (\<lambda>i. ''t1'')] yardPolled
       = Some (autoPlace DEFAULT_CONFIG (\<lambda>i. ''t1'') 10 yardPolled)
   \<and> \<not> capacityOk DEFAULT_CONFIG (autoPlace DEFAULT_CONFIG (\<lambda>i. ''t1'') 10 yardPolled)"
proof -
  from autoPlace_yardPolled [of "\<lambda>i. ''t1''"] obtain C' where
    "autoPlaceLoop DEFAULT_CONFIG (layout yardPolled) (\<lambda>i. ''t1'') 10 0 (layout yardPolled, containers yardPolled, inboundIds yardPolled)
     = (3, AList.update ''A-R01-C01'' [''CONT-100001'', ''CONT-100002'', ''CONT-100003''] (layout yardPolled), C', [])"
    by blast
  then have "layout (autoPlace DEFAULT_CONFIG (\<lambda>i. ''t1'') 10 yardPolled)
      = AList.update ''A-R01-C01'' [''CONT-100001'', ''CONT-100002'', ''CONT-100003''] (layout yardPolled)"
    by (simp add: autoPlace_def)
  then have "(''A-R01-C01'', [''CONT-100001'', ''CONT-100002'', ''CONT-100003''])
      \<in> set (layout (autoPlace DEFAULT_CONFIG (\<lambda>i. ''t1'') 10 yardPolled))"
    by (simp add: entry_update)
  then have "\<not> capacityOk DEFAULT_CONFIG (autoPlace DEFAULT_CONFIG (\<lambda>i. ''t1'') 10 yardPolled)"
    unfolding capacityOk_def list_all_iff by (force simp: limit_default)
  then show ?thesis using capacityOk_yardPolled noDuplicateIds_yardPolled by simp
qed

section \<open>Every container in one place\<close>

lemma stacked_update:
  "mset (concat (map snd (AList.update k v l))) + mset (stackOf l k) = mset (concat (map snd l)) + mset v"
  by (induction l) (auto simp: stackOf_def)


lemma keys_removal: "map fst (map (\<lambda>(k, st). (k, f st)) l) = map fst l"
  by (induction l) auto

lemma stackOf_subset: "set (stackOf l k) \<subseteq> set (concat (map snd l))"
  by (induction l) (auto simp: stackOf_def)




lemma placementI:
  assumes "distinct (map fst (layout s))"
    and "mset (inboundIds s @ stackedIds s) = mset xs"
    and "distinct xs" and "set xs = dom (containers s)"
  shows "placement s"
proof -
  have "distinct (inboundIds s @ stackedIds s)"
    using mset_eq_imp_distinct_iff [OF assms(2)] assms(3) by blast
  moreover have "set (inboundIds s @ stackedIds s) = set xs"
    using assms(2) by (rule mset_eq_setD)
  ultimately show ?thesis using assms(1,4) by (simp add: placement_def)
qed










lemma freshId_unused: "freshId C rs = Some (cid, rs') \<Longrightarrow> C cid = None"
  by (induction rs) (auto split: if_splits)

lemma pollLoop_placement:
  assumes "pollLoop k i rs attrs clock (C, I) = Some (C', I')"
    and "distinct (I @ S)" and "set (I @ S) = dom C"
  shows "distinct (I' @ S) \<and> set (I' @ S) = dom C'"
  using assms
proof (induction k arbitrary: i rs C I)
  case 0
  then show ?case by simp
next
  case (Suc k)
  from Suc.prems(1) obtain cid rs' where f: "freshId C rs = Some (cid, rs')"
    and r: "pollLoop k (Suc i) rs' attrs clock (C(cid \<mapsto> makeContainer cid (attrs i) (clock i)), cid # I) = Some (C', I')"
    by (auto split: option.splits)
  from f have "C cid = None" by (rule freshId_unused)
  then have "cid \<notin> dom C" by auto
  with Suc.prems(2,3) have "distinct ((cid # I) @ S)"
    and "set ((cid # I) @ S) = dom (C(cid \<mapsto> makeContainer cid (attrs i) (clock i)))"
    by auto
  with Suc.IH [OF r] show ?case by blast
qed

lemma placement_poll:
  assumes "placement s" and "pollInbound cnt rs attrs clock s = Some s'"
  shows "placement s'"
proof -
  from assms(2) obtain C' I' where
    p: "pollLoop cnt 0 rs attrs clock (containers s, inboundIds s) = Some (C', I')"
    and s': "s' = s\<lparr>containers := C', inboundIds := I'\<rparr>"
    by (auto simp: pollInbound_def split: option.splits)
  from assms(1) have "distinct (inboundIds s @ stackedIds s)"
    and "set (inboundIds s @ stackedIds s) = dom (containers s)"
    by (simp_all add: placement_def)
  from pollLoop_placement [OF p this] assms(1) show ?thesis
    by (simp add: s' placement_def stackedIds_def)
qed






subsection \<open>The example yard\<close>

lemma stackedIds_yardStacked: "mset (stackedIds yardStacked) = mset [''CONT-100001'', ''CONT-100002'']"
proof -
  have "mset (stackedIds yardStacked) + mset (stackOf (layout (initial DEFAULT_CONFIG)) ''A-R01-C01'')
      = mset (stackedIds (initial DEFAULT_CONFIG)) + mset [''CONT-100001'', ''CONT-100002'']"
    unfolding stackedIds_def layout_yardStacked by (rule stacked_update)
  then show ?thesis by (simp add: stackOf_initial stackedIds_initial)
qed

lemma inbound_yardStacked: "inboundIds yardStacked = [''CONT-100003'']"
  by (simp add: yardStacked_def)

lemma dom_yardStacked: "dom (containers yardStacked) = {''CONT-100001'', ''CONT-100002'', ''CONT-100003''}"
  by (auto simp: yardStacked_def)

lemma placement_yardStacked: "placement yardStacked"
proof (rule placementI)
  show "distinct (map fst (layout yardStacked))" using gridLayout_yardStacked by (simp add: gridLayout_def)
  show "mset (inboundIds yardStacked @ stackedIds yardStacked) = mset [''CONT-100003'', ''CONT-100001'', ''CONT-100002'']"
    by (simp add: inbound_yardStacked stackedIds_yardStacked)
  show "distinct [''CONT-100003'', ''CONT-100001'', ''CONT-100002'']" by simp
  show "set [''CONT-100003'', ''CONT-100001'', ''CONT-100002''] = dom (containers yardStacked)"
    by (auto simp: dom_yardStacked)
qed


lemma randomId_7: "randomId ''CONT'' 7 = ''CONT-100007''"
  by (simp add: randomId_def decimal.simps digitChar_def)

lemma poll_yardStacked:
  "pollInbound 1 [1, 7] (\<lambda>i. draw0) (\<lambda>i. ''t4'') yardStacked = Some yardRepolled"
proof -
  have a: "containers yardStacked ''CONT-100001'' \<noteq> None" by (simp add: yardStacked_def)
  have b: "containers yardStacked ''CONT-100007'' = None" by (simp add: yardStacked_def)
  have "freshId (containers yardStacked) [1, 7] = Some (''CONT-100007'', [])"
    using a b by (simp add: randomId_1 [unfolded One_nat_def] randomId_7)
  then have "pollLoop 1 0 [1, 7] (\<lambda>i. draw0) (\<lambda>i. ''t4'') (containers yardStacked, inboundIds yardStacked)
      = Some ((containers yardStacked)(''CONT-100007'' \<mapsto> makeContainer ''CONT-100007'' draw0 ''t4''),
              ''CONT-100007'' # inboundIds yardStacked)"
    by simp
  then show ?thesis by (simp add: pollInbound_def yardRepolled_def)
qed


lemma placement_yardRepolled: "placement yardRepolled"
  using placement_poll [OF placement_yardStacked poll_yardStacked] .



text \<open>
  The property of the claim alone is not kept, even by an eviction from the holding slot:
  a container listed in two stacks is in one place of the two before the eviction and in
  both after it.
\<close>

lemma exactlyOnePlace_alone_not_kept:
  "exactlyOnePlace yardDoubled
   \<and> ''CONT-100001'' \<in> set (stackOf (layout yardDoubled) ''A-R01-C01'')
   \<and> \<not> exactlyOnePlace (removeFromSlot ''t3'' ''A-R01-C01'' ''CONT-100001'' yardDoubled)"
proof -
  have l: "layout yardDoubled = AList.update ''A-R01-C02'' [''CONT-100001''] (layout yardStacked)"
    by (simp add: yardDoubled_def)
  have "mset (stackedIds yardDoubled) + mset (stackOf (layout yardStacked) ''A-R01-C02'')
      = mset (stackedIds yardStacked) + mset [''CONT-100001'']"
    unfolding stackedIds_def l by (rule stacked_update)
  then have "mset (stackedIds yardDoubled) = mset [''CONT-100001'', ''CONT-100002'', ''CONT-100001'']"
    by (simp add: stackOf_yardStacked stackedIds_yardStacked)
  then have "set (stackedIds yardDoubled) = set [''CONT-100001'', ''CONT-100002'', ''CONT-100001'']"
    by (rule mset_eq_setD)
  moreover have "inboundIds yardDoubled = [''CONT-100003'']" by (simp add: yardDoubled_def inbound_yardStacked)
  moreover have "dom (containers yardDoubled) = {''CONT-100001'', ''CONT-100002'', ''CONT-100003''}"
    by (simp add: yardDoubled_def dom_yardStacked)
  ultimately have a: "exactlyOnePlace yardDoubled" by (simp add: exactlyOnePlace_def)
  have st: "\<And>k. stackOf (layout yardDoubled) k
      = (if k = ''A-R01-C02'' then [''CONT-100001''] else stackOf (layout yardStacked) k)"
    by (simp add: yardDoubled_def stackOf_update)
  have b: "''CONT-100001'' \<in> set (stackOf (layout yardDoubled) ''A-R01-C01'')"
    by (simp add: st stackOf_yardStacked)
  define s' where "s' = removeFromSlot ''t3'' ''A-R01-C01'' ''CONT-100001'' yardDoubled"
  have "stackOf (layout s') ''A-R01-C02'' = [''CONT-100001'']"
    by (simp add: s'_def removeFromSlot_def stackOf_update st)
  then have "''CONT-100001'' \<in> set (stackedIds s')"
    using stackOf_subset [of "layout s'" "''A-R01-C02''"] by (auto simp: stackedIds_def)
  moreover have "''CONT-100001'' \<in> set (inboundIds s')" by (simp add: s'_def removeFromSlot_def)
  moreover have "''CONT-100001'' \<in> dom (containers s')" by (simp add: s'_def removeFromSlot_def)
  ultimately have "\<not> exactlyOnePlace s'" unfolding exactlyOnePlace_def by blast
  with a b show ?thesis by (simp add: s'_def)
qed

section \<open>The stack limit under the other operations\<close>

lemma capacity_update:
  assumes "list_all (\<lambda>(slot, stack). length stack \<le> lim) l" and "length v \<le> lim"
  shows "list_all (\<lambda>(slot, stack). length stack \<le> lim) (AList.update k v l)"
  using assms by (induction l) auto

lemma capacity_removal:
  assumes "list_all (\<lambda>(slot, stack). length stack \<le> lim) l"
  shows "list_all (\<lambda>(slot, stack). length stack \<le> lim) (map (\<lambda>(k, st). (k, filter P st)) l)"
  using assms by (induction l) (auto intro: le_trans [OF length_filter_le])

lemma capacity_stackOf:
  "list_all (\<lambda>(slot, stack). length stack \<le> lim) l \<Longrightarrow> length (stackOf l k) \<le> lim"
  by (induction l) (auto simp: stackOf_def)

lemma capacityOk_poll: "pollInbound cnt rs attrs clock s = Some s' \<Longrightarrow> capacityOk cfg s' = capacityOk cfg s"
  by (auto simp: pollInbound_def capacityOk_def split: option.splits)

lemma capacityOk_acknowledge: "capacityOk cfg (snapshotSignatures cfg' s) = capacityOk cfg s"
  by (simp add: capacityOk_def snapshotSignatures_def)

lemma capacityOk_reorder:
  assumes "capacityOk cfg s"
  shows "capacityOk cfg (reorderWithinSlot slot i j s)"
proof (cases "0 \<le> i \<and> i < int (length (stackOf (layout s) slot)) \<and> 0 \<le> j \<and> j < int (length (stackOf (layout s) slot))")
  case True
  then have "nat i < length (stackOf (layout s) slot)" and "nat j < length (stackOf (layout s) slot)" by auto
  then have "length (spliceMove (nat i) (nat j) (stackOf (layout s) slot)) = length (stackOf (layout s) slot)"
    by (rule length_spliceMove)
  moreover have "length (stackOf (layout s) slot) \<le> stackLimit cfg"
    using assms unfolding capacityOk_def by (rule capacity_stackOf)
  ultimately show ?thesis
    using True assms capacity_update [of "stackLimit cfg" "layout s"]
    by (simp add: reorderWithinSlot_valid capacityOk_def)
next
  case False
  then have "reorderWithinSlot slot i j s = s" by (auto simp: reorderWithinSlot_def Let_def)
  with assms show ?thesis by simp
qed

lemma capacityOk_evict:
  assumes "capacityOk cfg s"
  shows "capacityOk cfg (removeFromSlot now slot cid s)"
proof -
  have "length (stackOf (layout s) slot) \<le> stackLimit cfg"
    using assms unfolding capacityOk_def by (rule capacity_stackOf)
  then have "length (filter (\<lambda>x. x \<noteq> cid) (stackOf (layout s) slot)) \<le> stackLimit cfg"
    using length_filter_le [of "\<lambda>x. x \<noteq> cid" "stackOf (layout s) slot"] by linarith
  with assms capacity_update [of "stackLimit cfg" "layout s"] show ?thesis
    by (simp add: removeFromSlot_def capacityOk_def)
qed

lemma capacityOk_moveSelected:
  assumes "capacityOk cfg s"
  shows "capacityOk cfg (snd (moveSelectedToSlot cfg now target s))"
proof (cases "selectedContainerId s")
  case None
  with assms show ?thesis by (simp add: moveSelectedToSlot_def)
next
  case (Some cid)
  show ?thesis
  proof (cases "cid = [] \<or> stackLimit cfg \<le> length (filter (\<lambda>x. x \<noteq> cid) (stackOf (layout s) target))")
    case True
    then have "snd (moveSelectedToSlot cfg now target s) = s"
      using Some moveSelectedToSlot_full [OF Some, of cfg target now]
      by (auto simp: moveSelectedToSlot_def)
    with assms show ?thesis by simp
  next
    case False
    then have ne: "cid \<noteq> []"
      and room: "length (filter (\<lambda>x. x \<noteq> cid) (stackOf (layout s) target)) < stackLimit cfg"
      by auto
    have "list_all (\<lambda>(slot, stack). length stack \<le> stackLimit cfg)
        (map (\<lambda>(k, st). (k, filter (\<lambda>x. x \<noteq> cid) st)) (layout s))"
      using assms unfolding capacityOk_def by (rule capacity_removal)
    moreover have "length (filter (\<lambda>x. x \<noteq> cid) (stackOf (layout s) target) @ [cid]) \<le> stackLimit cfg"
      using room by simp
    ultimately have "list_all (\<lambda>(slot, stack). length stack \<le> stackLimit cfg)
        (AList.update target (filter (\<lambda>x. x \<noteq> cid) (stackOf (layout s) target) @ [cid])
           (map (\<lambda>(k, st). (k, filter (\<lambda>x. x \<noteq> cid) st)) (layout s)))"
      by (rule capacity_update)
    then show ?thesis
      by (simp add: moveSelectedToSlot_room [OF Some ne room] capacityOk_def)
  qed
qed

text \<open>Every operation but \<open>autoPlace\<close> keeps all stacks within the stack limit.\<close>

lemma capacityOk_step:
  assumes "capacityOk cfg s" and "step cfg x s = Some s'" and "\<forall>n clock. x \<noteq> AutoPlace n clock"
  shows "capacityOk cfg s'"
proof (cases x)
  case (Poll cnt rs attrs clock)
  with assms show ?thesis by (simp add: capacityOk_poll)
next
  case (AutoPlace n clock)
  with assms show ?thesis by simp
next
  case (Move now cid target)
  have "capacityOk cfg (s\<lparr>selectedContainerId := Some cid\<rparr>)"
    using assms(1) by (simp add: capacityOk_def)
  then have "capacityOk cfg (snd (move cfg now cid target s))"
    unfolding move_def by (rule capacityOk_moveSelected)
  with assms Move show ?thesis by auto
next
  case (Reorder slot i j)
  with assms show ?thesis by (auto simp: capacityOk_reorder)
next
  case (Evict now slot cid)
  with assms show ?thesis by (auto simp: capacityOk_evict)
next
  case Acknowledge
  with assms show ?thesis by (auto simp: capacityOk_acknowledge)
qed

section \<open>The layout over the grid\<close>

lemma gridLayout_normalized: "gridLayout cfg (s\<lparr>layout := normalized cfg l\<rparr>)"
  using keys_objectOf [of "stackOf l" "allSlots cfg"]
  by (simp add: gridLayout_def normalized_def distinct_objectOf)

lemma gridLayout_update:
  assumes "distinct (map fst l) \<and> set (map fst l) = set (allSlots cfg)" and "k \<in> set (allSlots cfg)"
  shows "distinct (map fst (AList.update k v l)) \<and> set (map fst (AList.update k v l)) = set (allSlots cfg)"
proof -
  have "fst ` set (AList.update k v l) = {k} \<union> fst ` set l" by (rule dom_update)
  with assms show ?thesis by (auto simp: distinct_update)
qed

lemma firstAvailableSlot_grid: "firstAvailableSlot cfg lay = Some slot \<Longrightarrow> slot \<in> set (allSlots cfg)"
  by (auto simp: firstAvailableSlot_def find_Some_iff)

lemma autoPlaceLoop_grid:
  assumes "autoPlaceLoop cfg lay clock n placed (L, C, I) = (p', L', C', I')"
    and "distinct (map fst L) \<and> set (map fst L) = set (allSlots cfg)"
  shows "distinct (map fst L') \<and> set (map fst L') = set (allSlots cfg)"
  using assms
proof (induction I arbitrary: placed L C rule: rev_induct)
  case Nil
  then show ?case by (simp add: autoPlaceLoop_stop)
next
  case (snoc x J)
  show ?case
  proof (cases "placed < n")
    case False
    with snoc.prems show ?thesis by (simp add: autoPlaceLoop_stop)
  next
    case True
    show ?thesis
    proof (cases "firstAvailableSlot cfg lay")
      case None
      with snoc.prems show ?thesis by (simp add: autoPlaceLoop_none)
    next
      case (Some slot)
      have r: "autoPlaceLoop cfg lay clock n (Suc placed)
           (AList.update slot (stackOf L slot @ [x]) L,
            C(x \<mapsto> (baseOf C x)\<lparr>status := Some IN_YARD, placedAt := Some (clock placed), slotId := Some slot\<rparr>),
            J) = (p', L', C', I')"
        using autoPlaceLoop_step [OF Some True, of clock L C J x] snoc.prems(1) by simp
      from Some have "slot \<in> set (allSlots cfg)" by (rule firstAvailableSlot_grid)
      with snoc.prems(2) have "distinct (map fst (AList.update slot (stackOf L slot @ [x]) L))
          \<and> set (map fst (AList.update slot (stackOf L slot @ [x]) L)) = set (allSlots cfg)"
        by (rule gridLayout_update)
      from snoc.IH [OF r this] show ?thesis .
    qed
  qed
qed

lemma gridLayout_autoPlace:
  assumes "gridLayout cfg s"
  shows "gridLayout cfg (autoPlace cfg clock n s)"
proof -
  obtain p' L' C' I' where
    r: "autoPlaceLoop cfg (layout s) clock n 0 (layout s, containers s, inboundIds s) = (p', L', C', I')"
    by (metis prod_cases4)
  from assms have "distinct (map fst (layout s)) \<and> set (map fst (layout s)) = set (allSlots cfg)"
    by (simp add: gridLayout_def)
  from autoPlaceLoop_grid [OF r this] show ?thesis
    by (simp add: autoPlace_def r gridLayout_def)
qed

lemma gridLayout_moveSelected:
  assumes "gridLayout cfg s" and "target \<in> set (allSlots cfg)"
  shows "gridLayout cfg (snd (moveSelectedToSlot cfg now target s))"
proof (cases "selectedContainerId s")
  case None
  with assms show ?thesis by (simp add: moveSelectedToSlot_def)
next
  case (Some cid)
  show ?thesis
  proof (cases "cid = [] \<or> stackLimit cfg \<le> length (filter (\<lambda>x. x \<noteq> cid) (stackOf (layout s) target))")
    case True
    then have "snd (moveSelectedToSlot cfg now target s) = s"
      using Some moveSelectedToSlot_full [OF Some, of cfg target now]
      by (auto simp: moveSelectedToSlot_def)
    with assms show ?thesis by simp
  next
    case False
    then have ne: "cid \<noteq> []"
      and room: "length (filter (\<lambda>x. x \<noteq> cid) (stackOf (layout s) target)) < stackLimit cfg"
      by auto
    define R where "R = map (\<lambda>(k, st). (k, filter (\<lambda>x. x \<noteq> cid) st)) (layout s)"
    have "map fst R = map fst (layout s)" unfolding R_def by (rule keys_removal)
    with assms(1) have "distinct (map fst R) \<and> set (map fst R) = set (allSlots cfg)"
      by (simp add: gridLayout_def)
    from gridLayout_update [OF this assms(2)] show ?thesis
      by (simp add: moveSelectedToSlot_room [OF Some ne room] gridLayout_def R_def)
  qed
qed

text \<open>The layout stays an object over the slots of the grid under every operation that
  names a slot of the grid.\<close>

lemma gridLayout_step:
  assumes "gridLayout cfg s" and "step cfg x s = Some s'"
    and "\<And>slot. namedSlot x = Some slot \<Longrightarrow> slot \<in> set (allSlots cfg)"
  shows "gridLayout cfg s'"
proof (cases x)
  case (Poll cnt rs attrs clock)
  with assms(2) have "layout s' = layout s"
    by (auto simp: pollInbound_def split: option.splits)
  with assms(1) show ?thesis by (simp add: gridLayout_def)
next
  case (AutoPlace n clock)
  with assms(1,2) show ?thesis by (auto simp: gridLayout_autoPlace)
next
  case (Move now cid target)
  with assms(3) have t: "target \<in> set (allSlots cfg)" by simp
  have "gridLayout cfg (s\<lparr>selectedContainerId := Some cid\<rparr>)"
    using assms(1) by (simp add: gridLayout_def)
  then have "gridLayout cfg (snd (move cfg now cid target s))"
    unfolding move_def using t by (rule gridLayout_moveSelected)
  with assms(2) Move show ?thesis by auto
next
  case (Reorder slot i j)
  with assms(3) have t: "slot \<in> set (allSlots cfg)" by simp
  from assms(1) have g: "distinct (map fst (layout s)) \<and> set (map fst (layout s)) = set (allSlots cfg)"
    by (simp add: gridLayout_def)
  have "gridLayout cfg (reorderWithinSlot slot i j s)"
    using gridLayout_update [OF g t] g
    by (auto simp: reorderWithinSlot_def Let_def gridLayout_def)
  with assms(2) Reorder show ?thesis by auto
next
  case (Evict now slot cid)
  with assms(3) have t: "slot \<in> set (allSlots cfg)" by simp
  from assms(1) have g: "distinct (map fst (layout s)) \<and> set (map fst (layout s)) = set (allSlots cfg)"
    by (simp add: gridLayout_def)
  have "gridLayout cfg (removeFromSlot now slot cid s)"
    using gridLayout_update [OF g t] by (simp add: removeFromSlot_def gridLayout_def)
  with assms(2) Evict show ?thesis by auto
next
  case Acknowledge
  with assms(2) have "layout s' = layout s" by (auto simp: snapshotSignatures_def)
  with assms(1) show ?thesis by (simp add: gridLayout_def)
qed

section \<open>How the example states arise\<close>

lemma yardPolled_reached:
  "pollInbound 3 [1, 2, 3] (\<lambda>i. draw0) (\<lambda>i. ''t0'') (initial DEFAULT_CONFIG) = Some yardPolled"
proof -
  have "pollLoop 3 0 [1, 2, 3] (\<lambda>i. draw0) (\<lambda>i. ''t0'') (Map.empty, [])
      = Some ([''CONT-100001'' \<mapsto> makeContainer ''CONT-100001'' draw0 ''t0'',
               ''CONT-100002'' \<mapsto> makeContainer ''CONT-100002'' draw0 ''t0'',
               ''CONT-100003'' \<mapsto> makeContainer ''CONT-100003'' draw0 ''t0''],
              [''CONT-100003'', ''CONT-100002'', ''CONT-100001''])"
    by (simp add: numeral_3_eq_3 randomId_1 [unfolded One_nat_def] randomId_2 randomId_3 [unfolded numeral_3_eq_3])
  then show ?thesis by (simp add: pollInbound_def yardPolled_def initial_def del: pollLoop.simps)
qed

text \<open>The scenario of the specification: after a poll of three containers,
  \<open>autoPlace(2)\<close> stacks the two oldest in the first slot and leaves the newest
  inbound.\<close>

lemma autoPlace_two_of_three:
  "layout (autoPlace DEFAULT_CONFIG clock 2 yardPolled) = layout yardStacked
   \<and> inboundIds (autoPlace DEFAULT_CONFIG clock 2 yardPolled) = inboundIds yardStacked
   \<and> autoPlaced DEFAULT_CONFIG clock 2 yardPolled = 2"
proof -
  from autoPlaceLoop_some [OF first_available_initial_layout [OF layout_yardPolled], of 2 "inboundIds yardPolled" 0 2
      clock "layout yardPolled" "containers yardPolled"]
  obtain C' where "autoPlaceLoop DEFAULT_CONFIG (layout yardPolled) clock 2 0
       (layout yardPolled, containers yardPolled, inboundIds yardPolled)
     = (2, AList.update ''A-R01-C01'' [''CONT-100001'', ''CONT-100002''] (layout yardPolled), C', [''CONT-100003''])"
    by (auto simp: inbound_yardPolled layout_yardPolled stackOf_initial)
  then show ?thesis
    by (simp add: autoPlace_def autoPlaced_def layout_yardStacked layout_yardPolled inbound_yardStacked)
qed

section \<open>A move within a stack over the limit\<close>

lemma stackOf_yardOverfull:
  "stackOf (layout yardOverfull) k
     = (if k = ''A-R01-C01'' then [''CONT-100001'', ''CONT-100002'', ''CONT-100003''] else [])"
proof -
  from autoPlace_yardPolled [of "\<lambda>i. ''t1''"] obtain C' where
    "autoPlaceLoop DEFAULT_CONFIG (layout yardPolled) (\<lambda>i. ''t1'') 10 0 (layout yardPolled, containers yardPolled, inboundIds yardPolled)
     = (3, AList.update ''A-R01-C01'' [''CONT-100001'', ''CONT-100002'', ''CONT-100003''] (layout yardPolled), C', [])"
    by blast
  then have "layout yardOverfull
      = AList.update ''A-R01-C01'' [''CONT-100001'', ''CONT-100002'', ''CONT-100003''] (layout yardPolled)"
    by (simp add: yardOverfull_def autoPlace_def)
  then show ?thesis by (simp add: stackOf_update layout_yardPolled stackOf_initial)
qed

lemma yardOverfull_reached:
  "run DEFAULT_CONFIG [Poll 3 [1, 2, 3] (\<lambda>i. draw0) (\<lambda>i. ''t0''), AutoPlace 10 (\<lambda>i. ''t1'')] (initial DEFAULT_CONFIG)
     = Some yardOverfull"
  using yardPolled_reached by (simp add: yardOverfull_def)

text \<open>
  On a stack over the limit, which \<open>autoPlace\<close> can build, the same move is refused:
  the stack without the container is still at the limit.
\<close>

theorem move_within_full_slot_counterexample:
  "run DEFAULT_CONFIG [Poll 3 [1, 2, 3] (\<lambda>i. draw0) (\<lambda>i. ''t0''), AutoPlace 10 (\<lambda>i. ''t1'')] (initial DEFAULT_CONFIG)
     = Some yardOverfull
   \<and> ''CONT-100001'' \<in> set (stackOf (layout yardOverfull) ''A-R01-C01'')
   \<and> stackOf (layout yardOverfull) ''A-R01-C01'' = [''CONT-100001'', ''CONT-100002'', ''CONT-100003'']
   \<and> stackLimit DEFAULT_CONFIG = 2
   \<and> moveSelectedToSlot DEFAULT_CONFIG ''t2'' ''A-R01-C01'' (yardOverfull\<lparr>selectedContainerId := Some ''CONT-100001''\<rparr>)
       = (Some (SlotFull ''A-R01-C01'' 2), yardOverfull\<lparr>selectedContainerId := Some ''CONT-100001''\<rparr>)"
proof -
  define s where "s = yardOverfull\<lparr>selectedContainerId := Some ''CONT-100001''\<rparr>"
  have sel: "selectedContainerId s = Some ''CONT-100001''" by (simp add: s_def)
  have st: "stackOf (layout s) ''A-R01-C01'' = [''CONT-100001'', ''CONT-100002'', ''CONT-100003'']"
    by (simp add: s_def stackOf_yardOverfull)
  have full: "stackLimit DEFAULT_CONFIG \<le> length (filter (\<lambda>x. x \<noteq> ''CONT-100001'') (stackOf (layout s) ''A-R01-C01''))"
    by (simp add: st limit_default)
  have "moveSelectedToSlot DEFAULT_CONFIG ''t2'' ''A-R01-C01'' s = (Some (SlotFull ''A-R01-C01'' (stackLimit DEFAULT_CONFIG)), s)"
    using sel _ full by (rule moveSelectedToSlot_full) simp
  then show ?thesis
    using yardOverfull_reached by (simp add: s_def limit_default stackOf_yardOverfull)
qed

end
